theory Spec2Isabelle
  imports Complex_Main "HOL-Library.Signed_Division"
begin

section \<open>JavaScript values used by the media pipeline\<close>

text \<open>
  A JavaScript number as the pipeline meets it: a finite value or NaN. Arithmetic on finite
  values is exact here (rounding and overflow to an infinity are left out); NaN is kept
  because an out-of-range read of a typed array, and 0 / 0, produce it.
\<close>

datatype number = Num real | NaN

text \<open>
  The exceptions of the pipeline: the three the language raises here, \<^verbatim>\<open>new Error(msg)\<close>
  of the program's own, and the rejection of a platform promise or constructor.
\<close>

datatype js_error = SyntaxError | TypeError | RangeError | Error string | Rejected

text \<open>
  \<^verbatim>\<open>a[i]\<close> on a Float32Array whose value is then stored into another Float32Array:
  an index outside the array reads \<^verbatim>\<open>undefined\<close>, which a Float32Array stores as NaN.
\<close>

definition f32_get :: "number list \<Rightarrow> int \<Rightarrow> number" where
  "f32_get a i = (if 0 \<le> i \<and> i < int (length a) then a ! nat i else NaN)"

text \<open>\<^verbatim>\<open>a[i] = v\<close> on a Float32Array: a store outside the array is ignored.\<close>

definition f32_set :: "number list \<Rightarrow> int \<Rightarrow> number \<Rightarrow> number list" where
  "f32_set a i v = (if 0 \<le> i \<and> i < int (length a) then a[nat i := v] else a)"

text \<open>
  \<^verbatim>\<open>target.set(source)\<close> of a typed array: the source overwrites the front of the target,
  and a source longer than the target raises RangeError.
\<close>

definition f32_set_from :: "number list \<Rightarrow> number list \<Rightarrow> js_error + number list" where
  "f32_set_from target source =
     (if length source \<le> length target
      then Inr (source @ drop (length source) target)
      else Inl RangeError)"

text \<open>
  The operator \<^verbatim>\<open>%\<close> on integers: the remainder takes the sign of the dividend. The
  only divisor in this program is \<^verbatim>\<open>bufferSize\<close>, which is never zero.
\<close>

definition js_rem :: "int \<Rightarrow> int \<Rightarrow> int" where
  "js_rem a b = a smod b"


section \<open>The playback worklet: \<^verbatim>\<open>PCMProcessor\<close>\<close>

record PCMProcessor =
  bufferSize :: int
  buffer :: "number list"
  writeIndex :: int
  readIndex :: int
  availableSamples :: int

text \<open>The constructor: five seconds of samples at 24 kHz, all zero, both cursors at 0.\<close>

definition PCMProcessor_new :: PCMProcessor where
  "PCMProcessor_new =
     \<lparr> bufferSize = 24000 * 5,
       buffer = replicate (24000 * 5) (Num 0),
       writeIndex = 0,
       readIndex = 0,
       availableSamples = 0 \<rparr>"

text \<open>The messages the node's port delivers to the processor, by their \<^verbatim>\<open>type\<close> field.\<close>

datatype port_message = Buffer "number list" | Clear | Other

text \<open>One turn of the write loop: the body of \<^verbatim>\<open>for (i < newData.length)\<close>.\<close>

definition write_sample :: "PCMProcessor \<Rightarrow> number \<Rightarrow> PCMProcessor" where
  "write_sample s x =
     (if availableSamples s < bufferSize s
      then s\<lparr> buffer := f32_set (buffer s) (writeIndex s) x,
              writeIndex := js_rem (writeIndex s + 1) (bufferSize s),
              availableSamples := availableSamples s + 1 \<rparr>
      else s)"

fun write_loop :: "PCMProcessor \<Rightarrow> number list \<Rightarrow> PCMProcessor" where
  "write_loop s [] = s"
| "write_loop s (x # xs) = write_loop (write_sample s x) xs"

text \<open>\<^verbatim>\<open>this.port.onmessage\<close>.\<close>

fun port_onmessage :: "PCMProcessor \<Rightarrow> port_message \<Rightarrow> PCMProcessor" where
  "port_onmessage s (Buffer newData) = write_loop s newData"
| "port_onmessage s Clear = s\<lparr> writeIndex := 0, readIndex := 0, availableSamples := 0 \<rparr>"
| "port_onmessage s Other = s"

text \<open>
  One turn of the read loop: the sample stored at \<^verbatim>\<open>outputChannel[i]\<close> and the state
  after it.
\<close>

definition read_sample :: "PCMProcessor \<Rightarrow> PCMProcessor \<times> number" where
  "read_sample s =
     (if availableSamples s > 0
      then (s\<lparr> readIndex := js_rem (readIndex s + 1) (bufferSize s),
               availableSamples := availableSamples s - 1 \<rparr>,
            f32_get (buffer s) (readIndex s))
      else (s, Num 0))"

text \<open>The read loop over an output channel of \<open>n\<close> samples: the state after it and the channel.\<close>

fun read_loop :: "PCMProcessor \<Rightarrow> nat \<Rightarrow> PCMProcessor \<times> number list" where
  "read_loop s 0 = (s, [])"
| "read_loop s (Suc n) =
     (let (s1, v) = read_sample s;
          (s2, vs) = read_loop s1 n
      in (s2, v # vs))"

text \<open>
  The copy of the first channel into the others, \<^verbatim>\<open>output[ch].set(outputChannel)\<close> for
  \<open>ch = 1, 2, ...\<close>; the first RangeError ends the loop.
\<close>

fun copy_channels :: "number list \<Rightarrow> number list list \<Rightarrow> js_error + number list list" where
  "copy_channels outputChannel [] = Inr []"
| "copy_channels outputChannel (c # cs) =
     (case f32_set_from c outputChannel of
        Inl e \<Rightarrow> Inl e
      | Inr c' \<Rightarrow>
          (case copy_channels outputChannel cs of
             Inl e \<Rightarrow> Inl e
           | Inr cs' \<Rightarrow> Inr (c' # cs')))"

text \<open>
  What one call of \<^verbatim>\<open>process\<close> leaves behind: the processor, the frame posted to the
  main thread (if any), and the channels of \<^verbatim>\<open>outputs[0]\<close>, or the exception that
  left the call.
\<close>

record process_result =
  processor :: PCMProcessor
  posted :: "number list option"
  played :: "js_error + number list list"

text \<open>Part 1 of \<^verbatim>\<open>process\<close>: the first channel of the first input, when it has samples.\<close>

fun process_input :: "number list list list \<Rightarrow> number list option" where
  "process_input [] = None"
| "process_input ([] # rest) = None"
| "process_input ((inputChannel # chs) # rest) =
     (if length inputChannel > 0 then Some inputChannel else None)"

text \<open>
  \<^verbatim>\<open>process(inputs, outputs)\<close>. The arguments are lists of inputs and outputs, each a
  list of channels. A call that raises nothing returns \<^verbatim>\<open>true\<close>.
\<close>

fun process :: "PCMProcessor \<Rightarrow> number list list list \<Rightarrow> number list list list \<Rightarrow> process_result" where
  "process s inputs [] =
     \<lparr> processor = s, posted = process_input inputs, played = Inr [] \<rparr>"
| "process s inputs ([] # rest) =
     \<lparr> processor = s, posted = process_input inputs, played = Inr [] \<rparr>"
| "process s inputs ((outputChannel # chs) # rest) =
     (let (s', frame) = read_loop s (length outputChannel)
      in \<lparr> processor = s', posted = process_input inputs,
           played = (case copy_channels frame chs of
                       Inl e \<Rightarrow> Inl e
                      | Inr chs' \<Rightarrow> Inr (frame # chs')) \<rparr>)"

text \<open>What reaches the processor: a port message, or a render callback.\<close>

datatype worklet_event =
    Message port_message
  | Process "number list list list" "number list list list"

fun worklet_step :: "PCMProcessor \<Rightarrow> worklet_event \<Rightarrow> PCMProcessor" where
  "worklet_step s (Message m) = port_onmessage s m"
| "worklet_step s (Process inputs outputs) = processor (process s inputs outputs)"

definition worklet_run :: "PCMProcessor \<Rightarrow> worklet_event list \<Rightarrow> PCMProcessor" where
  "worklet_run s evs = foldl worklet_step s evs"

text \<open>The first output channel of every render callback of a run, in order.\<close>

fun worklet_frames :: "PCMProcessor \<Rightarrow> worklet_event list \<Rightarrow> number list list" where
  "worklet_frames s [] = []"
| "worklet_frames s (Message m # evs) = worklet_frames (port_onmessage s m) evs"
| "worklet_frames s (Process inputs outputs # evs) =
     (case played (process s inputs outputs) of
        Inr (frame # chs) \<Rightarrow> [frame]
      | _ \<Rightarrow> [])
     @ worklet_frames (processor (process s inputs outputs)) evs"

text \<open>
  The samples waiting in the ring, oldest first: the cells from \<^verbatim>\<open>readIndex\<close> on,
  \<^verbatim>\<open>availableSamples\<close> of them, around the end of the array.
\<close>

definition queued :: "PCMProcessor \<Rightarrow> number list" where
  "queued s =
     map (\<lambda>k. f32_get (buffer s) ((readIndex s + int k) mod bufferSize s))
       [0 ..< nat (availableSamples s)]"

text \<open>The ring is well formed: the cursors are inside the array and one ring apart by the count.\<close>

definition ring_ok :: "PCMProcessor \<Rightarrow> bool" where
  "ring_ok s \<longleftrightarrow>
     0 < bufferSize s \<and> int (length (buffer s)) = bufferSize s \<and>
     0 \<le> availableSamples s \<and> availableSamples s \<le> bufferSize s \<and>
     0 \<le> readIndex s \<and> readIndex s < bufferSize s \<and>
     0 \<le> writeIndex s \<and> writeIndex s < bufferSize s \<and>
     writeIndex s = (readIndex s + availableSamples s) mod bufferSize s"


text \<open>The processor after a run of events from the constructor's state.\<close>

definition ring_state :: "worklet_event list \<Rightarrow> PCMProcessor" where
  "ring_state evs = worklet_run PCMProcessor_new evs"

text \<open>A render callback with no input and one mono output of \<open>n\<close> frames.\<close>

definition render :: "nat \<Rightarrow> worklet_event" where
  "render n = Process [] [[replicate n (Num 0)]]"

text \<open>The events that write samples: the \<^verbatim>\<open>buffer\<close> messages.\<close>

fun is_write :: "worklet_event \<Rightarrow> bool" where
  "is_write (Message (Buffer newData)) = True"
| "is_write ev = False"


text \<open>A frame of silence: every sample is 0.\<close>

definition silent :: "number list \<Rightarrow> bool" where
  "silent frame \<longleftrightarrow> list_all (\<lambda>v. v = Num 0) frame"


section \<open>The audio transport session: \<^verbatim>\<open>AudioManager\<close>\<close>

datatype ConnectionStatus = disconnected | connecting | ready | processing | error

text \<open>
  A value \<^verbatim>\<open>JSON.parse\<close> returns. An object is the list of its properties, each key
  once.
\<close>

datatype json =
    JNull
  | JBool bool
  | JNumber real
  | JString string
  | JArray "json list"
  | JObject "(string \<times> json) list"

text \<open>
  \<^verbatim>\<open>data.key\<close> for the keys \<^verbatim>\<open>type\<close> and \<^verbatim>\<open>message\<close>: TypeError on
  \<^verbatim>\<open>null\<close>, the property of an object, and \<^verbatim>\<open>undefined\<close> (\<open>None\<close>) otherwise.
\<close>

fun json_get :: "json \<Rightarrow> string \<Rightarrow> js_error + json option" where
  "json_get JNull key = Inl TypeError"
| "json_get (JObject props) key = Inr (map_of props key)"
| "json_get data key = Inr None"

text \<open>
  An ArrayBuffer as a Float32Array sees it: the samples its bytes encode, four bytes each,
  and the number of bytes left over (fewer than four). Its byte length is
  \<open>4 * length samples + spare\<close>.
\<close>

record ArrayBuffer =
  samples :: "number list"
  spare :: nat

text \<open>\<^verbatim>\<open>new Float32Array(data)\<close>: RangeError unless the byte length is a multiple of 4.\<close>

definition Float32Array_of :: "ArrayBuffer \<Rightarrow> js_error + number list" where
  "Float32Array_of data = (if spare data = 0 then Inr (samples data) else Inl RangeError)"

datatype ready_state = CONNECTING | OPEN | CLOSING | CLOSED

text \<open>
  What a handler does to the world outside the manager, in order: the optional callbacks
  (\<^verbatim>\<open>callbacks.onStatusChange?.(status)\<close> and the like), the messages posted to the
  worklet node's port, the frames sent on the socket, the console, the timer and the
  promise of \<^verbatim>\<open>connectWebSocket\<close>, and the resources \<^verbatim>\<open>stop\<close> releases.
\<close>

datatype effect =
    OnStatusChange ConnectionStatus
  | OnAudioActivity number
  | OnError "json option"
  | PostMessage port_message
  | WebSocketSend "number list"
  | ConsoleLog string
  | ConsoleError string
  | ClearTimeout
  | Resolve
  | Reject
  | StopTracks
  | DisconnectNode
  | CloseSocket
  | CloseContext

text \<open>
  The fields of the manager. A resource is \<open>True\<close> or \<open>Some\<close> when the field is not
  \<^verbatim>\<open>null\<close>; the socket carries its \<^verbatim>\<open>readyState\<close>. \<^verbatim>\<open>audioChunkCount\<close> is the
  counter local to \<^verbatim>\<open>startRecording\<close> that the port handler closes over.
\<close>

record AudioManager =
  audioContext :: bool
  workletNode :: bool
  stream :: bool
  websocket :: "ready_state option"
  status :: ConnectionStatus
  isRecording :: bool
  audioChunkCount :: nat

definition AudioManager_new :: AudioManager where
  "AudioManager_new =
     \<lparr> audioContext = False, workletNode = False, stream = False, websocket = None,
       status = disconnected, isRecording = False, audioChunkCount = 0 \<rparr>"

definition setStatus :: "AudioManager \<Rightarrow> ConnectionStatus \<Rightarrow> AudioManager \<times> effect list" where
  "setStatus s st = (s\<lparr> status := st \<rparr>, [OnStatusChange st])"

text \<open>\<^verbatim>\<open>handleJsonMessage(data)\<close>; the TypeError is the one of \<^verbatim>\<open>data.type\<close> on null.\<close>

definition handleJsonMessage :: "AudioManager \<Rightarrow> json \<Rightarrow> js_error + AudioManager \<times> effect list" where
  "handleJsonMessage s data =
     (case json_get data ''type'' of
        Inl e \<Rightarrow> Inl e
      | Inr ty \<Rightarrow>
          (case json_get data ''message'' of
             Inl e \<Rightarrow> Inl e
           | Inr message \<Rightarrow>
               if ty = Some (JString ''status'') then
                 if message = Some (JString ''ready'') then Inr (setStatus s ready)
                 else if message = Some (JString ''user_speaking'') then
                   Inr (case setStatus s ready of
                          (s', es) \<Rightarrow>
                            (s', (if workletNode s then [PostMessage Clear] else []) @ es))
                 else if message = Some (JString ''processing'') then Inr (setStatus s processing)
                 else if message = Some (JString ''done'') then Inr (setStatus s ready)
                 else if message = Some (JString ''history_cleared'') then
                   Inr (s, [ConsoleLog ''Conversation history cleared''])
                 else Inr (s, [])
               else if ty = Some (JString ''error'') then
                 Inr (case setStatus s error of (s', es) \<Rightarrow> (s', es @ [OnError message]))
               else Inr (s, [])))"


text \<open>
  What a handler of the socket leaves behind: the manager, the effects in order, and the
  exception that left the handler, if one did.
\<close>

type_synonym outcome = "AudioManager \<times> effect list \<times> js_error option"

text \<open>\<^verbatim>\<open>handleAudioData(data)\<close>.\<close>

definition handleAudioData :: "AudioManager \<Rightarrow> ArrayBuffer \<Rightarrow> outcome" where
  "handleAudioData s data =
     (if \<not> workletNode s then (s, [], None)
      else
        (case (if status s = ready then setStatus s processing else (s, [])) of
           (s1, es1) \<Rightarrow>
             (case Float32Array_of data of
                Inl e \<Rightarrow> (s1, es1, Some e)
              | Inr float32Data \<Rightarrow> (s1, es1 @ [PostMessage (Buffer float32Data)], None))))"

text \<open>What the socket delivers: an ArrayBuffer or a string.\<close>

datatype ws_data = Binary ArrayBuffer | Text string

text \<open>
  The \<^verbatim>\<open>try\<close> block of \<^verbatim>\<open>websocket.onmessage\<close> once \<^verbatim>\<open>JSON.parse\<close> has
  returned \<open>data\<close>: \<^verbatim>\<open>handleJsonMessage\<close>, then the test for the \<^verbatim>\<open>ready\<close>
  message that resolves \<^verbatim>\<open>connectWebSocket\<close>. The \<^verbatim>\<open>catch\<close> logs and goes on.
\<close>

definition ws_on_json :: "AudioManager \<Rightarrow> json \<Rightarrow> outcome" where
  "ws_on_json s data =
     (case handleJsonMessage s data of
        Inl e \<Rightarrow> (s, [ConsoleError ''Failed to parse message:''], None)
      | Inr (s1, es1) \<Rightarrow>
          if json_get data ''type'' = Inr (Some (JString ''status'')) \<and>
             json_get data ''message'' = Inr (Some (JString ''ready''))
          then (case setStatus s1 ready of
                  (s2, es2) \<Rightarrow> (s2, es1 @ [ClearTimeout] @ es2 @ [Resolve], None))
          else (s1, es1, None))"

text \<open>
  \<^verbatim>\<open>websocket.onmessage\<close>, as \<^verbatim>\<open>connectWebSocket\<close> installs it. \<^verbatim>\<open>JSON.parse\<close> is
  the platform's: a parameter, \<open>None\<close> where it raises SyntaxError, which the
  \<^verbatim>\<open>catch\<close> logs.
\<close>

definition ws_onmessage :: "(string \<Rightarrow> json option) \<Rightarrow> AudioManager \<Rightarrow> ws_data \<Rightarrow> outcome" where
  "ws_onmessage JSON_parse s event_data =
     (case event_data of
        Binary data \<Rightarrow> handleAudioData s data
      | Text text \<Rightarrow>
          (case JSON_parse text of
             None \<Rightarrow> (s, [ConsoleError ''Failed to parse message:''], None)
           | Some data \<Rightarrow> ws_on_json s data))"

text \<open>
  The other handlers of the socket. The socket's \<^verbatim>\<open>readyState\<close> is the platform's:
  \<open>ws_opened\<close> is the manager once the socket has opened.
\<close>

definition ws_opened :: "AudioManager \<Rightarrow> AudioManager" where
  "ws_opened s = s\<lparr> websocket := map_option (\<lambda>st. OPEN) (websocket s) \<rparr>"

definition ws_onopen :: "AudioManager \<Rightarrow> outcome" where
  "ws_onopen s = (s, [ConsoleLog ''WebSocket connected''], None)"

definition ws_onerror :: "AudioManager \<Rightarrow> outcome" where
  "ws_onerror s =
     (case setStatus s error of
        (s1, es1) \<Rightarrow>
          (s1, [ConsoleError ''WebSocket error:''] @ es1 @
               [OnError (Some (JString ''WebSocket connection failed'')), ClearTimeout, Reject],
           None))"

definition ws_onclose :: "AudioManager \<Rightarrow> outcome" where
  "ws_onclose s =
     (case setStatus s disconnected of
        (s1, es1) \<Rightarrow> (s1, [ConsoleLog ''WebSocket closed''] @ es1, None))"

text \<open>
  What the platform does while \<^verbatim>\<open>initialize\<close> runs: whether the AudioContext is
  constructed, whether it has an \<^verbatim>\<open>audioWorklet\<close>, and whether \<^verbatim>\<open>addModule\<close>
  resolves.
\<close>

record audio_platform =
  context_created :: bool
  has_audioWorklet :: bool
  module_added :: bool

text \<open>The \<^verbatim>\<open>catch\<close> block of \<^verbatim>\<open>initialize\<close>: status \<^verbatim>\<open>error\<close>, rethrow.\<close>

definition initialize_failed :: "AudioManager \<Rightarrow> effect list \<Rightarrow> js_error \<Rightarrow> outcome" where
  "initialize_failed s es e =
     (case setStatus s error of (s1, es1) \<Rightarrow> (s1, es @ es1, Some e))"

text \<open>
  \<^verbatim>\<open>initialize(wsUrl)\<close> up to the point where it waits for \<^verbatim>\<open>connectWebSocket\<close>,
  whose promise the socket's handlers resolve (\<open>Resolve\<close>) or reject (\<open>Reject\<close>, and the
  timer after 300 s); a rejection runs \<open>initialize_failed\<close>.
\<close>

definition initialize_begin :: "AudioManager \<Rightarrow> audio_platform \<Rightarrow> outcome" where
  "initialize_begin s env =
     (case setStatus s connecting of
        (s1, es1) \<Rightarrow>
          if \<not> context_created env then initialize_failed s1 es1 Rejected
          else
            (let s2 = s1\<lparr> audioContext := True \<rparr>
             in if \<not> has_audioWorklet env
                then initialize_failed s2 es1 (Error ''AudioWorklet not supported in this browser'')
                else if \<not> module_added env then initialize_failed s2 es1 Rejected
                else (s2\<lparr> websocket := Some CONNECTING \<rparr>, es1, None)))"

text \<open>
  What the platform does while \<^verbatim>\<open>startRecording\<close> runs: whether the context is
  suspended and, if so, whether \<^verbatim>\<open>resume()\<close> resolves; whether \<^verbatim>\<open>getUserMedia\<close>
  resolves; whether the stream source and the worklet node are created; and whether the two
  \<^verbatim>\<open>connect\<close> calls of the audio graph succeed.
\<close>

record recording_platform =
  suspended :: bool
  resumed :: bool
  mic_granted :: bool
  source_created :: bool
  node_created :: bool
  graph_connected :: bool

text \<open>
  \<^verbatim>\<open>startRecording()\<close>, step by step: a step that fails ends the call with what was
  assigned before it. \<^verbatim>\<open>this.stream\<close> is assigned when \<^verbatim>\<open>getUserMedia\<close> resolves,
  \<^verbatim>\<open>this.workletNode\<close> when the node is created (its port handler, with its counter at
  0, right after), and \<^verbatim>\<open>isRecording\<close> last. The texts of the logs are shortened.
\<close>

definition startRecording :: "AudioManager \<Rightarrow> recording_platform \<Rightarrow> outcome" where
  "startRecording s env =
     (let log0 = [ConsoleLog ''[AudioManager] startRecording called''] in
      if \<not> audioContext s \<or> websocket s = None
      then (s, log0, Some (Error ''AudioManager not initialized''))
      else
        (let log1 = log0 @ (if suspended env
                             then [ConsoleLog ''[AudioManager] Resuming suspended AudioContext'']
                             else [])
         in if suspended env \<and> \<not> resumed env then (s, log1, Some Rejected)
            else
              (let log2 = log1 @ [ConsoleLog ''[AudioManager] Requesting microphone access...'']
               in if \<not> mic_granted env then (s, log2, Some Rejected)
                  else
                    (let s1 = s\<lparr> stream := True \<rparr>
                     in if \<not> source_created env then (s1, log2, Some Rejected)
                        else if \<not> node_created env then (s1, log2, Some Rejected)
                        else
                          (let s2 = s1\<lparr> workletNode := True, audioChunkCount := 0 \<rparr>
                           in if \<not> graph_connected env then (s2, log2, Some Rejected)
                              else (s2\<lparr> isRecording := True \<rparr>,
                                    log2 @ [ConsoleLog ''[AudioManager] Recording started''],
                                    None))))))"

subsection \<open>Arithmetic of the level meter\<close>

fun num_add :: "number \<Rightarrow> number \<Rightarrow> number" where
  "num_add (Num a) (Num b) = Num (a + b)"
| "num_add a b = NaN"

fun num_mul :: "number \<Rightarrow> number \<Rightarrow> number" where
  "num_mul (Num a) (Num b) = Num (a * b)"
| "num_mul a b = NaN"

text \<open>
  \<^verbatim>\<open>a / b\<close>. A zero divisor gives NaN for 0 / 0 and an infinity otherwise; the meter
  divides by zero only as 0 / 0 (an empty frame), so the infinities are left out here as
  they are for overflow.
\<close>

fun num_div :: "number \<Rightarrow> number \<Rightarrow> number" where
  "num_div (Num a) (Num b) = (if b = 0 then NaN else Num (a / b))"
| "num_div a b = NaN"

fun num_sqrt :: "number \<Rightarrow> number" where
  "num_sqrt (Num a) = (if a < 0 then NaN else Num (sqrt a))"
| "num_sqrt NaN = NaN"

text \<open>
  The loop \<^verbatim>\<open>for (let i = 0; i < inputData.length; i += 10) sum += inputData[i] * inputData[i]\<close>,
  from index \<open>i\<close> with the sum so far.
\<close>

function rms_sum :: "number list \<Rightarrow> nat \<Rightarrow> number \<Rightarrow> number" where
  "rms_sum inputData i acc =
     (if i < length inputData
      then rms_sum inputData (i + 10) (num_add acc (num_mul (inputData ! i) (inputData ! i)))
      else acc)"
  by pat_completeness auto
termination
  by (relation "measure (\<lambda>(inputData, i, acc). length inputData - i)") auto

declare rms_sum.simps [simp del]

definition rms :: "number list \<Rightarrow> number" where
  "rms inputData =
     num_sqrt (num_div (rms_sum inputData 0 (Num 0))
                       (num_div (Num (real (length inputData))) (Num 10)))"

text \<open>Every tenth sample of a frame, from the first on.\<close>

function strided :: "'a list \<Rightarrow> 'a list" where
  "strided [] = []"
| "strided (x # xs) = x # strided (drop 9 xs)"
  by pat_completeness auto
termination
  by (relation "measure length") auto

text \<open>What the worklet node's port delivers to the main thread, by its \<^verbatim>\<open>type\<close> field.\<close>

datatype node_message = Input "number list" | NotInput

text \<open>
  \<^verbatim>\<open>workletNode.port.onmessage\<close>, as \<^verbatim>\<open>startRecording\<close> installs it.
  \<^verbatim>\<open>inputData.buffer\<close> is sent as the frame it holds; every hundredth frame sent is
  logged.
\<close>

definition node_onmessage :: "AudioManager \<Rightarrow> node_message \<Rightarrow> AudioManager \<times> effect list" where
  "node_onmessage s event_data =
     (case event_data of
        NotInput \<Rightarrow> (s, [])
      | Input inputData \<Rightarrow>
          if websocket s = Some OPEN \<and> isRecording s
          then (s\<lparr> audioChunkCount := audioChunkCount s + 1 \<rparr>,
                [OnAudioActivity (rms inputData), WebSocketSend inputData] @
                (if (audioChunkCount s + 1) mod 100 = 0
                 then [ConsoleLog ''[AudioManager] Sent audio chunks''] else []))
          else (s, [OnAudioActivity (rms inputData)]))"

definition stopRecording :: "AudioManager \<Rightarrow> AudioManager \<times> effect list" where
  "stopRecording s = (s\<lparr> isRecording := False \<rparr>, [])"

definition resumeRecording :: "AudioManager \<Rightarrow> AudioManager \<times> effect list" where
  "resumeRecording s = (s\<lparr> isRecording := True \<rparr>, [])"

text \<open>\<^verbatim>\<open>stop()\<close>: every resource that is held is released and its field set to null.\<close>

definition stop :: "AudioManager \<Rightarrow> AudioManager \<times> effect list" where
  "stop s =
     (s\<lparr> isRecording := False, stream := False, workletNode := False, websocket := None,
         audioContext := False, status := disconnected \<rparr>,
      (if stream s then [StopTracks] else []) @
      (if workletNode s then [DisconnectNode] else []) @
      (if websocket s \<noteq> None then [CloseSocket] else []) @
      (if audioContext s then [CloseContext] else []) @
      [OnStatusChange disconnected])"

text \<open>The control message \<^verbatim>\<open>{type: 'status', message: m}\<close>.\<close>

definition status_message :: "string \<Rightarrow> json" where
  "status_message m = JObject [(''type'', JString ''status''), (''message'', JString m)]"

text \<open>
  The manager once \<^verbatim>\<open>initialize\<close> has resolved: a new manager, the platform doing
  its part, the socket open, and the server's \<^verbatim>\<open>ready\<close> message received. And the
  manager once \<^verbatim>\<open>startRecording\<close> has resolved after that.
\<close>

definition AudioManager_initialized :: AudioManager where
  "AudioManager_initialized =
     fst (ws_on_json
            (ws_opened
               (fst (initialize_begin AudioManager_new
                       \<lparr> context_created = True, has_audioWorklet = True, module_added = True \<rparr>)))
            (status_message ''ready''))"

definition AudioManager_recording :: AudioManager where
  "AudioManager_recording =
     fst (startRecording AudioManager_initialized
            \<lparr> suspended = False, resumed = True, mic_granted = True, source_created = True,
              node_created = True, graph_connected = True \<rparr>)"


section \<open>The alpha compositor: \<^verbatim>\<open>WebGLVideoRenderer\<close>\<close>

datatype gl_program = programSBS | programNormal

text \<open>What \<^verbatim>\<open>checkSideBySide\<close> does besides its fields: \<^verbatim>\<open>setupProgram\<close> and the log.\<close>

datatype gl_effect = SetupProgram gl_program | GlLog string

text \<open>
  The fields layout detection reads and writes, with the canvas's \<^verbatim>\<open>width\<close> and
  \<^verbatim>\<open>height\<close>. Dimensions are unsigned integers.
\<close>

record WebGLVideoRenderer =
  canvas_width :: nat
  canvas_height :: nat
  isSideBySide :: bool
  formatDetected :: bool
  lastVideoWidth :: nat
  lastVideoHeight :: nat

text \<open>The constructor, on a canvas of the given size.\<close>

definition WebGLVideoRenderer_new :: "nat \<Rightarrow> nat \<Rightarrow> WebGLVideoRenderer" where
  "WebGLVideoRenderer_new w h =
     \<lparr> canvas_width = w, canvas_height = h, isSideBySide = False, formatDetected = False,
       lastVideoWidth = 0, lastVideoHeight = 0 \<rparr>"

text \<open>
  \<^verbatim>\<open>checkSideBySide()\<close> on a video of \<^verbatim>\<open>videoWidth\<close> by \<^verbatim>\<open>videoHeight\<close>.
  The quotient and the comparison with 1.8 are exact here; on doubles they give the same
  answer for all dimensions below \<open>2^32\<close>, since a quotient above 9/5 is above it by
  at least \<open>1 / (5 * videoHeight)\<close>, far more than a rounding step. The canvas's
  \<^verbatim>\<open>width\<close> is an unsigned integer attribute: \<^verbatim>\<open>videoWidth / 2\<close> is stored
  truncated.
\<close>

definition checkSideBySide ::
    "WebGLVideoRenderer \<Rightarrow> nat \<Rightarrow> nat \<Rightarrow> WebGLVideoRenderer \<times> gl_effect list" where
  "checkSideBySide r videoWidth videoHeight =
     (if videoWidth > 0 \<and> videoHeight > 0 then
        (let dimensionsChanged =
               (videoWidth \<noteq> lastVideoWidth r \<or> videoHeight \<noteq> lastVideoHeight r)
         in if formatDetected r \<and> \<not> dimensionsChanged then (r, [])
            else
              (let aspectRatio = real videoWidth / real videoHeight
               in if aspectRatio > 1.8
                  then (r\<lparr> lastVideoWidth := videoWidth, lastVideoHeight := videoHeight,
                           isSideBySide := True,
                           canvas_width := videoWidth div 2, canvas_height := videoHeight,
                           formatDetected := True \<rparr>,
                        [SetupProgram programSBS, GlLog ''[WebGL] Side-by-Side'']) 
                  else (r\<lparr> lastVideoWidth := videoWidth, lastVideoHeight := videoHeight,
                           isSideBySide := False,
                           canvas_width := videoWidth, canvas_height := videoHeight,
                           formatDetected := True \<rparr>,
                        [SetupProgram programNormal, GlLog ''[WebGL] normal''])))
      else (r, []))"

text \<open>The renderer after the render loop has seen a sequence of video dimensions.\<close>

definition detect_run :: "WebGLVideoRenderer \<Rightarrow> (nat \<times> nat) list \<Rightarrow> WebGLVideoRenderer" where
  "detect_run r frames = foldl (\<lambda>r (w, h). fst (checkSideBySide r w h)) r frames"

text \<open>
  Once a format is detected, the flag, the cached dimensions and the canvas agree with the
  threshold test on the cached dimensions.
\<close>

definition layout_ok :: "WebGLVideoRenderer \<Rightarrow> bool" where
  "layout_ok r \<longleftrightarrow>
     (if formatDetected r
      then 0 < lastVideoWidth r \<and> 0 < lastVideoHeight r \<and>
           isSideBySide r = (real (lastVideoWidth r) / real (lastVideoHeight r) > 1.8) \<and>
           canvas_width r = (if isSideBySide r then lastVideoWidth r div 2 else lastVideoWidth r) \<and>
           canvas_height r = lastVideoHeight r
      else True)"


section \<open>The video ingress session: \<^verbatim>\<open>LiveTalkingWebRTC\<close>\<close>

record LiveTalkingWebRTC =
  peerConnection :: bool
  sessionId :: int

definition LiveTalkingWebRTC_new :: LiveTalkingWebRTC where
  "LiveTalkingWebRTC_new = \<lparr> peerConnection = False, sessionId = 0 \<rparr>"

text \<open>
  The body of the answer to \<^verbatim>\<open>/offer\<close>, by the fields \<^verbatim>\<open>connect\<close> reads besides the
  session description: \<^verbatim>\<open>code\<close> and \<^verbatim>\<open>msg\<close> may be absent.
\<close>

record offer_answer =
  code :: "int option"
  msg :: "string option"
  sessionid :: int

text \<open>
  The response to the request: its HTTP status and what \<^verbatim>\<open>response.json()\<close> gives
  (\<open>None\<close> when it rejects or yields \<^verbatim>\<open>null\<close>).
\<close>

record offer_response =
  http_status :: nat
  body :: "offer_answer option"

text \<open>\<^verbatim>\<open>response.ok\<close>: the status is in the range 200 to 299.\<close>

definition response_ok :: "offer_response \<Rightarrow> bool" where
  "response_ok response \<longleftrightarrow> 200 \<le> http_status response \<and> http_status response \<le> 299"

text \<open>
  What the platform and the server do during one \<^verbatim>\<open>connect()\<close>: whether the peer
  connection is constructed, whether the local offer is made and set, what
  \<^verbatim>\<open>fetch\<close> resolves to (\<open>None\<close> when it rejects), and whether the remote
  description is accepted. Waiting for ICE gathering always resolves, by its event or by
  its 3 s timer.
\<close>

record negotiation =
  constructed :: bool
  offered :: bool
  fetched :: "offer_response option"
  remote_accepted :: bool

text \<open>
  The exception \<^verbatim>\<open>connect()\<close> rejects with: one of its own two errors, or whatever
  the platform raised.
\<close>

datatype connect_error =
    OfferFailed nat
  | ConnectionFailed string
  | PlatformError

datatype rtc_effect =
    RtcLog string
  | RtcConsoleError connect_error
  | RtcOnError connect_error

text \<open>The \<^verbatim>\<open>catch\<close> block of \<^verbatim>\<open>connect()\<close>: log, tell the observer, rethrow.\<close>

definition connect_failed ::
    "LiveTalkingWebRTC \<Rightarrow> connect_error \<Rightarrow> LiveTalkingWebRTC \<times> rtc_effect list \<times> (connect_error + int)" where
  "connect_failed s e = (s, [RtcConsoleError e, RtcOnError e], Inl e)"

text \<open>\<^verbatim>\<open>data.msg || 'LiveTalking connection failed'\<close>.\<close>

definition failure_message :: "offer_answer \<Rightarrow> string" where
  "failure_message data =
     (case msg data of
        None \<Rightarrow> ''LiveTalking connection failed''
      | Some m \<Rightarrow> if m = [] then ''LiveTalking connection failed'' else m)"

text \<open>\<^verbatim>\<open>connect()\<close>: the session afterwards, the effects, and the rejection or the result.\<close>

definition connect ::
    "LiveTalkingWebRTC \<Rightarrow> negotiation \<Rightarrow> LiveTalkingWebRTC \<times> rtc_effect list \<times> (connect_error + int)" where
  "connect s env =
     (if \<not> constructed env then connect_failed s PlatformError
      else
        (let s1 = s\<lparr> peerConnection := True \<rparr>
         in if \<not> offered env then connect_failed s1 PlatformError
            else
              (case fetched env of
                 None \<Rightarrow> connect_failed s1 PlatformError
               | Some response \<Rightarrow>
                   if \<not> response_ok response
                   then connect_failed s1 (OfferFailed (http_status response))
                   else
                     (case body response of
                        None \<Rightarrow> connect_failed s1 PlatformError
                      | Some data \<Rightarrow>
                          if code data = Some (- 1)
                          then connect_failed s1 (ConnectionFailed (failure_message data))
                          else if \<not> remote_accepted env then connect_failed s1 PlatformError
                          else (s1\<lparr> sessionId := sessionid data \<rparr>,
                                [RtcLog ''[LiveTalking] Connected''],
                                Inr (sessionid data))))))"

definition getSessionId :: "LiveTalkingWebRTC \<Rightarrow> int" where
  "getSessionId s = sessionId s"

text \<open>\<^verbatim>\<open>close()\<close>.\<close>

definition close :: "LiveTalkingWebRTC \<Rightarrow> LiveTalkingWebRTC" where
  "close s = \<lparr> peerConnection = False, sessionId = 0 \<rparr>"


section \<open>The ring buffer: helper lemmas\<close>

lemma js_rem_mod: "0 \<le> a \<Longrightarrow> 0 < b \<Longrightarrow> js_rem a b = a mod b"
  by (simp add: js_rem_def signed_modulo_int_def sgn_if)


lemma length_queued: "length (queued s) = nat (availableSamples s)"
  by (simp add: queued_def)

lemma ring_step_neq:
  fixes r :: int
  assumes "0 < c" "0 \<le> k" "k < a" "a < c"
  shows "(r + k) mod c \<noteq> (r + a) mod c"
proof
  assume "(r + k) mod c = (r + a) mod c"
  then have "c dvd ((r + a) - (r + k))"
    by (metis mod_eq_dvd_iff)
  then have "c dvd (a - k)" by simp
  moreover have "0 < a - k" "a - k < c" using assms by auto
  ultimately show False
    using zdvd_not_zless by blast
qed

lemma write_sample_ok: "ring_ok s \<Longrightarrow> ring_ok (write_sample s x)"
  unfolding ring_ok_def write_sample_def
  by (auto simp: js_rem_mod f32_set_def mod_simps add.assoc)

lemma write_sample_queued:
  assumes "ring_ok s"
  shows "queued (write_sample s x) =
           (if availableSamples s < bufferSize s then queued s @ [x] else queued s)"
proof (cases "availableSamples s < bufferSize s")
  case False
  then show ?thesis by (simp add: write_sample_def)
next
  case True
  let ?c = "bufferSize s" and ?a = "availableSamples s" and ?r = "readIndex s"
  from assms have c: "0 < ?c" and len: "int (length (buffer s)) = ?c"
    and a0: "0 \<le> ?a" and w: "writeIndex s = (?r + ?a) mod ?c"
    and w0: "0 \<le> writeIndex s" and w1: "writeIndex s < ?c"
    by (simp_all add: ring_ok_def)
  have old: "f32_get (f32_set (buffer s) (writeIndex s) x) ((?r + int k) mod ?c)
               = f32_get (buffer s) ((?r + int k) mod ?c)" if "k < nat ?a" for k
  proof -
    have "(?r + int k) mod ?c \<noteq> (?r + ?a) mod ?c"
      using ring_step_neq [of ?c "int k" ?a ?r] c that True by simp
    then have "nat ((?r + int k) mod ?c) \<noteq> nat (writeIndex s)"
      using w c by (simp add: nat_eq_iff)
    moreover have "0 \<le> (?r + int k) mod ?c" "(?r + int k) mod ?c < ?c"
      using c by simp_all
    ultimately show ?thesis
      using len w0 w1 by (simp add: f32_get_def f32_set_def)
  qed
  have new: "f32_get (f32_set (buffer s) (writeIndex s) x) ((?r + ?a) mod ?c) = x"
    using w w0 w1 len by (simp add: f32_get_def f32_set_def)
  have n: "nat (?a + 1) = Suc (nat ?a)" using a0 by simp
  show ?thesis
    using True a0 by (simp add: queued_def write_sample_def n old new)
qed


lemma write_sample_available:
  "availableSamples (write_sample s x) =
     (if availableSamples s < bufferSize s then availableSamples s + 1 else availableSamples s)"
  by (simp add: write_sample_def)

lemma write_sample_bufferSize: "bufferSize (write_sample s x) = bufferSize s"
  by (simp add: write_sample_def)

lemma write_loop_ok: "ring_ok s \<Longrightarrow> ring_ok (write_loop s xs)"
  by (induction xs arbitrary: s) (simp_all add: write_sample_ok)

lemma write_loop_bufferSize: "bufferSize (write_loop s xs) = bufferSize s"
  by (induction xs arbitrary: s) (simp_all add: write_sample_bufferSize)

lemma write_loop_full:
  "\<not> availableSamples s < bufferSize s \<Longrightarrow> write_loop s xs = s"
  by (induction xs arbitrary: s) (simp_all add: write_sample_def)

lemma write_loop_queued:
  "ring_ok s \<Longrightarrow>
   queued (write_loop s xs) = queued s @ take (nat (bufferSize s - availableSamples s)) xs"
proof (induction xs arbitrary: s)
  case Nil
  then show ?case by simp
next
  case (Cons x xs)
  show ?case
  proof (cases "availableSamples s < bufferSize s")
    case False
    then show ?thesis
      by (simp add: write_loop_full write_sample_def)
  next
    case True
    then have n: "nat (bufferSize s - availableSamples s)
                    = Suc (nat (bufferSize s - (availableSamples s + 1)))"
      by simp
    from Cons.IH [OF write_sample_ok [OF Cons.prems], of x] True Cons.prems show ?thesis
      by (simp add: write_sample_queued write_sample_available write_sample_bufferSize n)
  qed
qed

lemma write_loop_available:
  "availableSamples s \<le> bufferSize s \<Longrightarrow>
   availableSamples (write_loop s xs)
     = min (bufferSize s) (availableSamples s + int (length xs))"
proof (induction xs arbitrary: s)
  case Nil
  then show ?case by simp
next
  case (Cons x xs)
  have "availableSamples (write_sample s x) \<le> bufferSize (write_sample s x)"
    using Cons.prems by (simp add: write_sample_def)
  from Cons.IH [OF this] Cons.prems show ?case
    by (auto simp: write_sample_available write_sample_bufferSize add.assoc)
qed

lemma write_loop_append: "write_loop s (xs @ ys) = write_loop (write_loop s xs) ys"
  by (induction xs arbitrary: s) simp_all

lemma read_sample_ok: "ring_ok s \<Longrightarrow> ring_ok (fst (read_sample s))"
  unfolding ring_ok_def read_sample_def
  by (auto simp: js_rem_mod mod_simps)

lemma read_sample_queued:
  assumes "ring_ok s"
  shows "queued s =
           (if availableSamples s > 0
            then snd (read_sample s) # queued (fst (read_sample s)) else [])"
proof (cases "availableSamples s > 0")
  case False
  with assms show ?thesis by (simp add: queued_def ring_ok_def)
next
  case True
  let ?c = "bufferSize s" and ?a = "availableSamples s" and ?r = "readIndex s"
  from assms have c: "0 < ?c" and r0: "0 \<le> ?r" and r1: "?r < ?c"
    by (simp_all add: ring_ok_def)
  have n: "nat ?a = Suc (nat (?a - 1))" using True by simp
  have shift: "((?r + 1) mod ?c + int k) mod ?c = (?r + int (Suc k)) mod ?c" for k
    by (simp add: mod_simps ac_simps)
  have "[0 ..< nat ?a] = 0 # map Suc [0 ..< nat (?a - 1)]"
    by (subst n) (simp add: upt_conv_Cons map_Suc_upt del: upt_Suc)
  then show ?thesis
    using True c r0 r1
    by (simp add: queued_def read_sample_def js_rem_mod shift comp_def)
qed

lemma read_loop_queued:
  "ring_ok s \<Longrightarrow>
   snd (read_loop s n) = take n (queued s) @ replicate (n - nat (availableSamples s)) (Num 0) \<and>
   queued (fst (read_loop s n)) = drop n (queued s) \<and>
   ring_ok (fst (read_loop s n))"
proof (induction n arbitrary: s)
  case 0
  then show ?case by simp
next
  case (Suc n)
  obtain s1 v where rs: "read_sample s = (s1, v)" by (cases "read_sample s")
  have ok1: "ring_ok s1" using read_sample_ok [OF Suc.prems] rs by simp
  note IH = Suc.IH [OF ok1]
  show ?case
  proof (cases "availableSamples s > 0")
    case True
    then have q: "queued s = v # queued s1"
      using read_sample_queued [OF Suc.prems] rs by simp
    have a1: "availableSamples s1 = availableSamples s - 1"
      using rs True by (auto simp: read_sample_def)
    have "Suc n - nat (availableSamples s) = n - nat (availableSamples s1)"
      using True a1 by simp
    with IH q rs show ?thesis
      by (simp add: split_beta)
  next
    case False
    then have s1: "s1 = s" "v = Num 0" using rs by (auto simp: read_sample_def)
    from False Suc.prems have a0: "availableSamples s = 0" by (simp add: ring_ok_def)
    then have q: "queued s = []" by (simp add: queued_def)
    from IH s1 rs q a0 show ?thesis
      by (simp add: split_beta replicate_app_Cons_same)
  qed
qed


lemma read_sample_bufferSize: "bufferSize (fst (read_sample s)) = bufferSize s"
  by (simp add: read_sample_def)

lemma read_loop_bufferSize: "bufferSize (fst (read_loop s n)) = bufferSize s"
proof (induction n arbitrary: s)
  case 0
  then show ?case by simp
next
  case (Suc n)
  from Suc [of "fst (read_sample s)"] show ?case
    by (simp add: split_beta read_sample_bufferSize)
qed

lemma processor_process:
  "processor (process s inputs outputs) =
     (case outputs of
        (outputChannel # chs) # rest \<Rightarrow> fst (read_loop s (length outputChannel))
      | _ \<Rightarrow> s)"
  by (cases "(s, inputs, outputs)" rule: process.cases) (simp_all add: split_beta)

lemma worklet_step_ok: "ring_ok s \<Longrightarrow> ring_ok (worklet_step s ev)"
proof (cases ev)
  case (Message m)
  assume "ring_ok s"
  then show ?thesis using Message
    by (cases m) (simp_all add: write_loop_ok, simp add: ring_ok_def)
next
  case (Process inputs outputs)
  assume "ring_ok s"
  then show ?thesis using Process
    by (simp add: processor_process read_loop_queued split: list.splits)
qed

lemma worklet_step_bufferSize: "bufferSize (worklet_step s ev) = bufferSize s"
proof (cases ev)
  case (Message m)
  then show ?thesis
    by (cases m) (simp_all add: write_loop_bufferSize)
next
  case (Process inputs outputs)
  then show ?thesis
    by (simp add: processor_process read_loop_bufferSize split: list.splits)
qed

lemma worklet_run_ok: "ring_ok s \<Longrightarrow> ring_ok (worklet_run s evs)"
  unfolding worklet_run_def
  by (induction evs arbitrary: s) (simp_all add: worklet_step_ok)

lemma worklet_run_bufferSize: "bufferSize (worklet_run s evs) = bufferSize s"
  unfolding worklet_run_def
  by (induction evs arbitrary: s) (simp_all add: worklet_step_bufferSize)

lemma PCMProcessor_new_ok: "ring_ok PCMProcessor_new"
  by (simp add: ring_ok_def PCMProcessor_new_def)

lemma ring_state_ok: "ring_ok (ring_state evs)"
  by (simp add: ring_state_def worklet_run_ok PCMProcessor_new_ok)

lemma ring_state_bufferSize: "bufferSize (ring_state evs) = 120000"
  by (simp add: ring_state_def worklet_run_bufferSize PCMProcessor_new_def)

lemma read_loop_add:
  "read_loop s (m + n) =
     (let (s1, a) = read_loop s m; (s2, b) = read_loop s1 n in (s2, a @ b))"
  by (induction m arbitrary: s) (simp_all add: split_beta)

lemma read_loop_available:
  "ring_ok s \<Longrightarrow> availableSamples (fst (read_loop s n)) = availableSamples s - int (min n (nat (availableSamples s)))"
proof -
  assume ok: "ring_ok s"
  from read_loop_queued [OF ok, of n]
  have q: "queued (fst (read_loop s n)) = drop n (queued s)"
    and ok': "ring_ok (fst (read_loop s n))" by simp_all
  from q have "nat (availableSamples (fst (read_loop s n))) = nat (availableSamples s) - n"
    using length_queued [of "fst (read_loop s n)"] length_queued [of s] by simp
  moreover have "0 \<le> availableSamples (fst (read_loop s n))" "0 \<le> availableSamples s"
    using ok ok' by (simp_all add: ring_ok_def)
  ultimately show ?thesis by linarith
qed

lemma render_frames:
  "ring_ok s \<Longrightarrow>
   concat (worklet_frames s (map render ns)) =
     take (sum_list ns) (queued s) @ replicate (sum_list ns - nat (availableSamples s)) (Num 0)"
proof (induction ns arbitrary: s)
  case Nil
  then show ?case by simp
next
  case (Cons n ns)
  let ?s' = "fst (read_loop s n)" and ?N = "sum_list ns" and ?a = "nat (availableSamples s)"
  from read_loop_queued [OF Cons.prems, of n]
  have f: "snd (read_loop s n) = take n (queued s) @ replicate (n - ?a) (Num 0)"
    and q: "queued ?s' = drop n (queued s)" and ok': "ring_ok ?s'" by simp_all
  have a': "nat (availableSamples ?s') = ?a - n"
    using q length_queued [of ?s'] length_queued [of s] by simp
  have len: "length (queued s) = ?a" by (rule length_queued)
  have "concat (worklet_frames s (map render (n # ns))) =
          snd (read_loop s n) @ concat (worklet_frames ?s' (map render ns))"
    by (simp add: render_def split_beta)
  also have "\<dots> = (take n (queued s) @ replicate (n - ?a) (Num 0)) @
                   (take ?N (drop n (queued s)) @ replicate (?N - (?a - n)) (Num 0))"
    using Cons.IH [OF ok'] f q a' by simp
  also have "\<dots> = take (n + ?N) (queued s) @ replicate (n + ?N - ?a) (Num 0)"
  proof (cases "n \<le> ?a")
    case True
    then have "?N - (?a - n) = n + ?N - ?a" by simp
    with True show ?thesis by (simp add: take_add)
  next
    case False
    then have "replicate (n - ?a) (Num 0) @ replicate ?N (Num 0) = replicate (n + ?N - ?a) (Num 0)"
      by (simp add: replicate_add [symmetric])
    with False len show ?thesis by simp
  qed
  finally show ?case by simp
qed

lemma render_run: "worklet_run s (map render ns) = fst (read_loop s (sum_list ns))"
  unfolding worklet_run_def
  by (induction ns arbitrary: s) (simp_all add: render_def read_loop_add split_beta)

lemma write_chunks:
  "worklet_run s (map (\<lambda>c. Message (Buffer c)) chunks) = write_loop s (concat chunks)"
  unfolding worklet_run_def
  by (induction chunks arbitrary: s) (simp_all add: write_loop_append)

lemma queued_new: "queued PCMProcessor_new = []"
  by (simp add: queued_def PCMProcessor_new_def)

lemma length_read_loop: "length (snd (read_loop s n)) = n"
  by (induction n arbitrary: s) (simp_all add: split_beta)

lemma copy_channels_same:
  "list_all (\<lambda>c. length c = length frame) chs \<Longrightarrow>
   copy_channels frame chs = Inr (replicate (length chs) frame)"
  by (induction chs) (simp_all add: f32_set_from_def)

lemma read_loop_empty:
  "availableSamples s = 0 \<Longrightarrow> read_loop s n = (s, replicate n (Num 0))"
  by (induction n) (simp_all add: read_sample_def)

lemma silent_replicate: "silent (replicate n (Num 0))"
  by (simp add: silent_def list_all_iff)

lemma frames_silent:
  "availableSamples s = 0 \<Longrightarrow> \<not> list_ex is_write evs \<Longrightarrow>
   list_all silent (worklet_frames s evs) \<and> availableSamples (worklet_run s evs) = 0"
proof (induction evs arbitrary: s)
  case Nil
  then show ?case by (simp add: worklet_run_def)
next
  case (Cons ev evs)
  show ?case
  proof (cases ev)
    case (Message m)
    with Cons.prems have "availableSamples (port_onmessage s m) = 0"
      by (cases m) simp_all
    from Cons.IH [OF this] Cons.prems Message show ?thesis
      by (simp add: worklet_run_def)
  next
    case (Process inputs outputs)
    have p: "processor (process s inputs outputs) = s"
      using Cons.prems(1)
      by (simp add: processor_process read_loop_empty split: list.splits)
    have "played (process s inputs outputs) = Inr (frame # chs) \<Longrightarrow> silent frame" for frame chs
      using Cons.prems(1)
      by (cases "(s, inputs, outputs)" rule: process.cases)
         (auto simp: read_loop_empty silent_replicate split: sum.splits)
    with Cons.IH [of s] Cons.prems Process p show ?thesis
      by (auto simp: worklet_run_def split: sum.splits list.splits)
  qed
qed


lemma used_ring:
  "availableSamples (ring_state [Message (Buffer [Num 5, Num 6, Num 7]), render 3]) = 0 \<and>
   readIndex (ring_state [Message (Buffer [Num 5, Num 6, Num 7]), render 3]) = 3"
  by (simp add: ring_state_def worklet_run_def render_def PCMProcessor_new_def
        write_sample_def read_sample_def js_rem_def signed_modulo_int_def numeral_3_eq_3
        split_beta)


section \<open>The ring buffer: claims\<close>

text \<open>
  C1. After every sequence of port messages (writes, clears, others) and render callbacks
  (reads) from the constructor's state, \<^verbatim>\<open>bufferSize\<close> is 24000 * 5 = 120000,
  \<^verbatim>\<open>availableSamples\<close> lies in [0, 120000], \<^verbatim>\<open>writeIndex\<close> and
  \<^verbatim>\<open>readIndex\<close> lie in [0, 120000), and a cursor that advances moves to its
  successor modulo 120000.
\<close>

theorem ring_buffer_bounds:
  "bufferSize (ring_state evs) = 24000 * 5 \<and>
   0 \<le> availableSamples (ring_state evs) \<and> availableSamples (ring_state evs) \<le> 120000 \<and>
   0 \<le> writeIndex (ring_state evs) \<and> writeIndex (ring_state evs) < 120000 \<and>
   0 \<le> readIndex (ring_state evs) \<and> readIndex (ring_state evs) < 120000 \<and>
   writeIndex (write_sample (ring_state evs) x) =
     (if availableSamples (ring_state evs) < 120000
      then (writeIndex (ring_state evs) + 1) mod 120000
      else writeIndex (ring_state evs)) \<and>
   readIndex (fst (read_sample (ring_state evs))) =
     (if availableSamples (ring_state evs) > 0
      then (readIndex (ring_state evs) + 1) mod 120000
      else readIndex (ring_state evs))"
proof -
  let ?s = "ring_state evs"
  have ok: "ring_ok ?s" by (rule ring_state_ok)
  have c: "bufferSize ?s = 120000" by (rule ring_state_bufferSize)
  from ok c have bounds:
    "0 \<le> availableSamples ?s" "availableSamples ?s \<le> 120000"
    "0 \<le> writeIndex ?s" "writeIndex ?s < 120000"
    "0 \<le> readIndex ?s" "readIndex ?s < 120000"
    by (simp_all add: ring_ok_def)
  have w: "writeIndex (write_sample ?s x) =
     (if availableSamples ?s < 120000 then (writeIndex ?s + 1) mod 120000 else writeIndex ?s)"
    using bounds c by (simp add: write_sample_def js_rem_mod)
  have r: "readIndex (fst (read_sample ?s)) =
     (if availableSamples ?s > 0 then (readIndex ?s + 1) mod 120000 else readIndex ?s)"
    using bounds c by (simp add: read_sample_def js_rem_mod)
  from c bounds w r show ?thesis by simp
qed

text \<open>
  C2. From every reachable state in which the ring is empty (the constructor's, or a used
  ring that has been drained or cleared, wherever its cursors stand), after
  \<^verbatim>\<open>buffer\<close> messages carrying 120000 + k samples in all (k > 0), exactly 120000
  samples are available and they are the first 120000 written, in order; render callbacks
  that drain at least 120000 frames play exactly those samples and then silence, and leave
  the ring empty. In every reachable state a write appends to the queued samples only as
  many new samples as there is room for: the samples beyond the room are dropped and the
  queued ones are kept as they are.
\<close>

theorem overflow_drops_newest:
  assumes "availableSamples (ring_state evs) = 0"
      and "length (concat chunks) = 120000 + k" and "0 < k"
      and "sum_list ns \<ge> 120000"
  shows "availableSamples
           (worklet_run (ring_state evs) (map (\<lambda>c. Message (Buffer c)) chunks)) = 120000 \<and>
         queued (worklet_run (ring_state evs) (map (\<lambda>c. Message (Buffer c)) chunks))
           = take 120000 (concat chunks) \<and>
         concat (worklet_frames
                   (worklet_run (ring_state evs) (map (\<lambda>c. Message (Buffer c)) chunks))
                   (map render ns))
           = take 120000 (concat chunks) @ replicate (sum_list ns - 120000) (Num 0) \<and>
         availableSamples
           (worklet_run
              (worklet_run (ring_state evs) (map (\<lambda>c. Message (Buffer c)) chunks))
              (map render ns)) = 0 \<and>
         queued (port_onmessage (ring_state evs') (Buffer newData))
           = queued (ring_state evs')
               @ take (nat (120000 - availableSamples (ring_state evs'))) newData"
proof -
  let ?xs = "concat chunks"
  let ?e = "ring_state evs"
  let ?s = "worklet_run ?e (map (\<lambda>c. Message (Buffer c)) chunks)"
  have s: "?s = write_loop ?e ?xs"
    by (rule write_chunks)
  have ok0: "ring_ok ?e" by (rule ring_state_ok)
  have c: "bufferSize ?e = 120000" by (rule ring_state_bufferSize)
  have q0: "queued ?e = []" using assms(1) by (simp add: queued_def)
  have ok: "ring_ok ?s" unfolding s by (rule write_loop_ok [OF ok0])
  have av: "availableSamples ?s = 120000"
    unfolding s using assms(1,2) c by (simp add: write_loop_available)
  have q: "queued ?s = take 120000 ?xs"
    unfolding s using assms(1) c by (simp add: write_loop_queued [OF ok0] q0)
  have lq: "length (take 120000 ?xs) = 120000" using assms(2) by simp
  have fr: "concat (worklet_frames ?s (map render ns))
              = take 120000 ?xs @ replicate (sum_list ns - 120000) (Num 0)"
    using assms(4) lq by (simp add: render_frames [OF ok] q av)
  have dr: "availableSamples (worklet_run ?s (map render ns)) = 0"
    using assms(4) by (simp add: render_run read_loop_available [OF ok] av)
  have wr: "queued (port_onmessage (ring_state evs') (Buffer newData))
           = queued (ring_state evs')
               @ take (nat (120000 - availableSamples (ring_state evs'))) newData"
    by (simp add: write_loop_queued ring_state_ok ring_state_bufferSize)
  from av q fr dr wr show ?thesis by simp
qed

theorem overflow_drops_newest_witness:
  "availableSamples (ring_state [Message (Buffer [Num 5, Num 6, Num 7]), render 3]) = 0 \<and>
   readIndex (ring_state [Message (Buffer [Num 5, Num 6, Num 7]), render 3]) = 3 \<and>
   length (concat [map (\<lambda>i. Num (real i)) [0 ..< 100],
                   map (\<lambda>i. Num (real i)) [100 ..< 120001]]) = 120000 + 1 \<and>
   (0::nat) < 1 \<and> sum_list [120000, 128] \<ge> (120000::nat) \<and>
   concat (worklet_frames
             (worklet_run (ring_state [Message (Buffer [Num 5, Num 6, Num 7]), render 3])
                (map (\<lambda>c. Message (Buffer c))
                   [map (\<lambda>i. Num (real i)) [0 ..< 100],
                    map (\<lambda>i. Num (real i)) [100 ..< 120001]]))
             (map render [120000, 128]))
     = map (\<lambda>i. Num (real i)) [0 ..< 120000] @ replicate 128 (Num 0)"
proof -
  let ?f = "\<lambda>i::nat. Num (real i)"
  let ?chunks = "[map ?f [0 ..< 100], map ?f [100 ..< 120001]]"
  have cc: "concat ?chunks = map ?f [0 ..< 120001]"
  proof -
    have "[0 ..< 120001] = [0 ..< 100] @ [100 ..< 120001]"
      using upt_add_eq_append [of 0 100 119901] by (simp del: upt_rec_numeral)
    then show ?thesis by (simp del: upt_rec_numeral)
  qed
  have h0: "availableSamples (ring_state [Message (Buffer [Num 5, Num 6, Num 7]), render 3]) = 0"
    using used_ring by blast
  have r0: "readIndex (ring_state [Message (Buffer [Num 5, Num 6, Num 7]), render 3]) = 3"
    using used_ring by blast
  have h1: "length (concat ?chunks) = 120000 + 1" by (simp del: upt_rec_numeral)
  have h2: "(0::nat) < 1" by simp
  have h3: "sum_list [120000, 128] \<ge> (120000::nat)" by simp
  have tk: "take 120000 (concat ?chunks) = map ?f [0 ..< 120000]"
    unfolding cc by (simp add: take_map del: upt_rec_numeral)
  have rp: "replicate (sum_list [120000, 128] - 120000) (Num 0) = replicate 128 (Num 0)"
    by simp
  from overflow_drops_newest [OF h0 h1 h2 h3]
  have "concat (worklet_frames
             (worklet_run (ring_state [Message (Buffer [Num 5, Num 6, Num 7]), render 3])
                (map (\<lambda>c. Message (Buffer c)) ?chunks))
             (map render [120000, 128]))
     = take 120000 (concat ?chunks) @ replicate (sum_list [120000, 128] - 120000) (Num 0)"
    by blast
  then have fr: "concat (worklet_frames
             (worklet_run (ring_state [Message (Buffer [Num 5, Num 6, Num 7]), render 3])
                (map (\<lambda>c. Message (Buffer c)) ?chunks))
             (map render [120000, 128]))
     = map ?f [0 ..< 120000] @ replicate 128 (Num 0)"
    by (simp only: tk rp)
  from h0 r0 h1 h2 h3 fr show ?thesis by blast
qed

text \<open>
  C3. In every reachable state with \<^verbatim>\<open>availableSamples\<close> < n, the read loop over an
  output channel of n samples yields the queued samples, oldest first, followed by
  n - \<^verbatim>\<open>availableSamples\<close> zeros, and leaves \<^verbatim>\<open>availableSamples\<close> at 0; the
  render callback returns these samples on every channel of the output and raises nothing.
\<close>

theorem underrun_pads_silence:
  assumes "availableSamples (ring_state evs) < int n"
      and "length outputChannel = n"
      and "list_all (\<lambda>c. length c = n) chs"
  shows "snd (read_loop (ring_state evs) n)
           = queued (ring_state evs)
               @ replicate (n - nat (availableSamples (ring_state evs))) (Num 0) \<and>
         length (queued (ring_state evs)) = nat (availableSamples (ring_state evs)) \<and>
         availableSamples (fst (read_loop (ring_state evs) n)) = 0 \<and>
         played (process (ring_state evs) inputs ((outputChannel # chs) # rest))
           = Inr (replicate (Suc (length chs)) (snd (read_loop (ring_state evs) n))) \<and>
         processor (process (ring_state evs) inputs ((outputChannel # chs) # rest))
           = fst (read_loop (ring_state evs) n)"
proof -
  let ?s = "ring_state evs"
  have ok: "ring_ok ?s" by (rule ring_state_ok)
  then have a0: "0 \<le> availableSamples ?s" by (simp add: ring_ok_def)
  have len: "length (queued ?s) = nat (availableSamples ?s)" by (rule length_queued)
  have fr: "snd (read_loop ?s n)
              = queued ?s @ replicate (n - nat (availableSamples ?s)) (Num 0)"
    using read_loop_queued [OF ok, of n] assms(1) len by simp
  have av: "availableSamples (fst (read_loop ?s n)) = 0"
    using assms(1) a0 by (simp add: read_loop_available [OF ok])
  have "copy_channels (snd (read_loop ?s n)) chs
          = Inr (replicate (length chs) (snd (read_loop ?s n)))"
    using assms(3) by (intro copy_channels_same) (simp add: length_read_loop)
  then have pl: "played (process ?s inputs ((outputChannel # chs) # rest))
           = Inr (replicate (Suc (length chs)) (snd (read_loop ?s n)))"
    using assms(2) by (simp add: split_beta)
  have pr: "processor (process ?s inputs ((outputChannel # chs) # rest)) = fst (read_loop ?s n)"
    using assms(2) by (simp add: split_beta)
  from fr len av pl pr show ?thesis by simp
qed

theorem underrun_pads_silence_witness:
  "availableSamples (ring_state [Message (Buffer [Num 1, Num 2])]) < int 4 \<and>
   length [NaN, NaN, NaN, NaN] = (4::nat) \<and>
   list_all (\<lambda>c. length c = (4::nat)) [[NaN, NaN, NaN, NaN]] \<and>
   snd (read_loop (ring_state [Message (Buffer [Num 1, Num 2])]) 4)
     = [Num 1, Num 2, Num 0, Num 0] \<and>
   availableSamples (fst (read_loop (ring_state [Message (Buffer [Num 1, Num 2])]) 4)) = 0 \<and>
   played (process (ring_state [Message (Buffer [Num 1, Num 2])]) []
             [[[NaN, NaN, NaN, NaN], [NaN, NaN, NaN, NaN]]])
     = Inr [[Num 1, Num 2, Num 0, Num 0], [Num 1, Num 2, Num 0, Num 0]]"
proof -
  let ?s = "ring_state [Message (Buffer [Num 1, Num 2])]"
  have s: "?s = write_loop PCMProcessor_new [Num 1, Num 2]"
    by (simp add: ring_state_def worklet_run_def)
  have a: "availableSamples ?s = 2"
    unfolding s by (subst write_loop_available) (simp_all add: PCMProcessor_new_def)
  have q: "queued ?s = [Num 1, Num 2]"
    unfolding s
    by (simp only: write_loop_queued [OF PCMProcessor_new_ok] queued_new)
       (simp add: PCMProcessor_new_def)
  have h1: "availableSamples ?s < int 4" using a by simp
  have h2: "length [NaN, NaN, NaN, NaN] = (4::nat)" by simp
  have h3: "list_all (\<lambda>c. length c = (4::nat)) [[NaN, NaN, NaN, NaN]]" by simp
  have r: "replicate (4 - nat 2) (Num 0) = [Num 0, Num 0]"
    by (simp add: numeral_eq_Suc)
  have r2: "replicate (Suc (length [c])) f = [f, f]" for c f :: "number list"
    by simp
  note t = underrun_pads_silence [OF h1 h2 h3, of "[]" "[]"]
  from t have "snd (read_loop ?s 4)
                 = queued ?s @ replicate (4 - nat (availableSamples ?s)) (Num 0)"
    by blast
  then have fr: "snd (read_loop ?s 4) = [Num 1, Num 2, Num 0, Num 0]"
    by (simp only: a q r append_Cons append_Nil)
  from t have av: "availableSamples (fst (read_loop ?s 4)) = 0"
    by blast
  from t have "played (process ?s [] [[[NaN, NaN, NaN, NaN], [NaN, NaN, NaN, NaN]]])
                 = Inr (replicate (Suc (length [[NaN, NaN, NaN, NaN]])) (snd (read_loop ?s 4)))"
    by blast
  then have pl: "played (process ?s [] [[[NaN, NaN, NaN, NaN], [NaN, NaN, NaN, NaN]]])
                 = Inr [[Num 1, Num 2, Num 0, Num 0], [Num 1, Num 2, Num 0, Num 0]]"
    by (simp only: r2 fr)
  from h1 h2 h3 fr av pl show ?thesis by blast
qed

text \<open>
  C4. In every state, the \<^verbatim>\<open>clear\<close> message sets \<^verbatim>\<open>writeIndex\<close>,
  \<^verbatim>\<open>readIndex\<close> and \<^verbatim>\<open>availableSamples\<close> to 0, and every render callback after it
  plays only zeros as long as no \<^verbatim>\<open>buffer\<close> message arrives.
\<close>

theorem clear_silences:
  assumes "\<not> list_ex is_write evs"
  shows "writeIndex (port_onmessage s Clear) = 0 \<and>
         readIndex (port_onmessage s Clear) = 0 \<and>
         availableSamples (port_onmessage s Clear) = 0 \<and>
         list_all silent (worklet_frames (port_onmessage s Clear) evs) \<and>
         snd (read_loop (port_onmessage s Clear) n) = replicate n (Num 0)"
  using frames_silent [of "port_onmessage s Clear" evs] assms
  by (simp add: read_loop_empty)

theorem clear_silences_witness:
  "\<not> list_ex is_write [render 2, Message Clear, Message Other, render 1] \<and>
   availableSamples (port_onmessage (ring_state [Message (Buffer [Num 1, Num 2])]) Clear) = 0 \<and>
   list_all silent
     (worklet_frames (port_onmessage (ring_state [Message (Buffer [Num 1, Num 2])]) Clear)
        [render 2, Message Clear, Message Other, render 1]) \<and>
   worklet_frames (port_onmessage (ring_state [Message (Buffer [Num 1, Num 2])]) Clear)
        [render 2, Message Clear, Message Other, render 1] = [[Num 0, Num 0], [Num 0]]"
proof -
  have h: "\<not> list_ex is_write [render 2, Message Clear, Message Other, render 1]"
    by (simp add: render_def)
  have f: "worklet_frames (port_onmessage (ring_state [Message (Buffer [Num 1, Num 2])]) Clear)
        [render 2, Message Clear, Message Other, render 1] = [[Num 0, Num 0], [Num 0]]"
    by (simp add: render_def read_sample_def numeral_eq_Suc)
  from clear_silences [OF h, of "ring_state [Message (Buffer [Num 1, Num 2])]"] h f
  show ?thesis by blast
qed


section \<open>The audio transport session: helper lemmas\<close>

lemma rms_sum_strided:
  "rms_sum xs i acc = foldl (\<lambda>a x. num_add a (num_mul x x)) acc (strided (drop i xs))"
proof (induction xs i acc rule: rms_sum.induct)
  case (1 inputData i acc)
  show ?case
  proof (cases "i < length inputData")
    case True
    then have d: "drop i inputData = inputData ! i # drop (Suc i) inputData"
      by (simp add: Cons_nth_drop_Suc)
    have "drop 9 (drop (Suc i) inputData) = drop (i + 10) inputData"
      by (simp add: add.commute)
    with 1 [OF True] True d show ?thesis
      by (subst rms_sum.simps) simp
  next
    case False
    then show ?thesis
      by (subst rms_sum.simps) simp
  qed
qed

lemma strided_map: "strided (map f xs) = map f (strided xs)"
  by (induction xs rule: strided.induct) (simp_all add: drop_map)

lemma foldl_squares:
  "foldl (\<lambda>a x. num_add a (num_mul x x)) (Num a) (map Num ys)
     = Num (a + (\<Sum>x\<leftarrow>ys. x * x))"
  by (induction ys arbitrary: a) (simp_all add: add.assoc)

lemma rms_finite:
  assumes "xs \<noteq> []"
  shows "rms (map Num xs) = Num (sqrt ((\<Sum>x\<leftarrow>strided xs. x * x) / (real (length xs) / 10)))"
proof -
  have nonneg: "0 \<le> (\<Sum>x\<leftarrow>strided xs. x * x)"
    by (rule sum_list_nonneg) auto
  have pos: "0 < real (length xs) / 10" using assms by simp
  have "0 \<le> (\<Sum>x\<leftarrow>strided xs. x * x) / (real (length xs) / 10)"
    using nonneg pos by (intro divide_nonneg_pos)
  then have "\<not> (\<Sum>x\<leftarrow>strided xs. x * x) / (real (length xs) / 10) < 0"
    by linarith
  moreover have "real (length xs) / 10 \<noteq> 0" using pos by linarith
  ultimately show ?thesis
    using foldl_squares [of 0 "strided xs"]
    by (simp add: rms_def rms_sum_strided strided_map)
qed

lemma rms_empty: "rms [] = NaN"
  by (simp add: rms_def rms_sum_strided)

lemma strided_nth: "strided xs = map (\<lambda>j. xs ! (10 * j)) [0 ..< (length xs + 9) div 10]"
proof (induction xs rule: strided.induct)
  case 1
  show ?case by simp
next
  case (2 x xs)
  let ?n = "length xs div 10"
  have cnt: "(length (drop 9 xs) + 9) div 10 = ?n"
    by (cases "9 \<le> length xs") simp_all
  have cnt': "(length (x # xs) + 9) div 10 = Suc ?n"
    by simp
  have el: "drop 9 xs ! (10 * j) = (x # xs) ! (10 * Suc j)" if "j < ?n" for j
  proof -
    from that have "10 * j + 10 \<le> length xs" by simp
    then have "9 + 10 * j \<le> length xs" by simp
    then show ?thesis by simp
  qed
  have "strided (drop 9 xs) = map (\<lambda>j. drop 9 xs ! (10 * j)) [0 ..< ?n]"
    using 2 by (simp only: cnt)
  then have "strided (x # xs) = x # map (\<lambda>j. drop 9 xs ! (10 * j)) [0 ..< ?n]"
    by simp
  also have "map (\<lambda>j. drop 9 xs ! (10 * j)) [0 ..< ?n]
               = map (\<lambda>j. (x # xs) ! (10 * Suc j)) [0 ..< ?n]"
    by (rule map_cong) (simp_all add: el)
  also have "x # map (\<lambda>j. (x # xs) ! (10 * Suc j)) [0 ..< ?n]
               = map (\<lambda>j. (x # xs) ! (10 * j)) [0 ..< Suc ?n]"
    by (simp add: upt_conv_Cons map_Suc_upt [symmetric] del: upt_Suc)
  finally show ?case by (simp only: cnt')
qed

lemma rms_indices:
  assumes "xs \<noteq> []"
  shows "rms (map Num xs)
           = Num (sqrt ((\<Sum>j\<leftarrow>[0 ..< (length xs + 9) div 10]. xs ! (10 * j) * xs ! (10 * j)) / (real (length xs) / 10)))"
proof -
  have "(\<Sum>x\<leftarrow>strided xs. x * x) = (\<Sum>j\<leftarrow>[0 ..< (length xs + 9) div 10]. xs ! (10 * j) * xs ! (10 * j))"
    by (subst strided_nth) (simp add: comp_def)
  with rms_finite [OF assms] show ?thesis by simp
qed

lemma handle_status_message:
  "handleJsonMessage s (status_message m) =
     (if m = ''ready'' then Inr (setStatus s ready)
      else if m = ''user_speaking'' then
        Inr (s\<lparr>status := ready\<rparr>,
             (if workletNode s then [PostMessage Clear] else []) @ [OnStatusChange ready])
      else if m = ''processing'' then Inr (setStatus s processing)
      else if m = ''done'' then Inr (setStatus s ready)
      else if m = ''history_cleared'' then Inr (s, [ConsoleLog ''Conversation history cleared''])
      else Inr (s, []))"
  by (simp add: handleJsonMessage_def status_message_def setStatus_def)

lemma AudioManager_initialized_eq:
  "AudioManager_initialized =
     \<lparr> audioContext = True, workletNode = False, stream = False, websocket = Some OPEN,
       status = ready, isRecording = False, audioChunkCount = 0 \<rparr>"
  by (simp add: AudioManager_initialized_def ws_on_json_def handleJsonMessage_def
        status_message_def initialize_begin_def ws_opened_def setStatus_def AudioManager_new_def)

lemma AudioManager_recording_eq:
  "AudioManager_recording =
     \<lparr> audioContext = True, workletNode = True, stream = True, websocket = Some OPEN,
       status = ready, isRecording = True, audioChunkCount = 0 \<rparr>"
  by (simp add: AudioManager_recording_def AudioManager_initialized_eq startRecording_def)

lemma initialized_fields:
  "\<not> workletNode AudioManager_initialized" "status AudioManager_initialized = ready"
  "websocket AudioManager_initialized = Some OPEN"
  by (simp_all add: AudioManager_initialized_eq)

lemma recording_fields:
  "workletNode AudioManager_recording" "status AudioManager_recording = ready"
  "websocket AudioManager_recording = Some OPEN" "isRecording AudioManager_recording"
  by (simp_all add: AudioManager_recording_eq)


section \<open>The audio transport session: claims\<close>

text \<open>
  C5 (as amended). A \<^verbatim>\<open>done\<close> status message sets the status to \<^verbatim>\<open>ready\<close> from every
  status, so from \<^verbatim>\<open>processing\<close>. A \<^verbatim>\<open>user_speaking\<close> status message sets the status
  to \<^verbatim>\<open>ready\<close> from every status, and posts \<^verbatim>\<open>clear\<close> to the worklet node when the
  node exists (and posts nothing when it does not). A binary payload received in status
  \<^verbatim>\<open>ready\<close> sets the status to \<^verbatim>\<open>processing\<close> when the worklet node exists; when
  the node does not exist a binary payload is ignored: the manager, its status included,
  stays as it is and nothing is posted.
\<close>

theorem status_machine:
  assumes "JSON_parse t_done = Some (status_message ''done'')"
      and "JSON_parse t_speaking = Some (status_message ''user_speaking'')"
  shows "(workletNode s \<and> status s = ready \<longrightarrow>
            status (fst (ws_onmessage JSON_parse s (Binary data))) = processing) \<and>
         (\<not> workletNode s \<longrightarrow>
            ws_onmessage JSON_parse s (Binary data) = (s, [], None)) \<and>
         ws_onmessage JSON_parse s (Text t_done)
           = (s\<lparr>status := ready\<rparr>, [OnStatusChange ready], None) \<and>
         (status s = processing \<longrightarrow>
            status (fst (ws_onmessage JSON_parse s (Text t_done))) = ready) \<and>
         ws_onmessage JSON_parse s (Text t_speaking)
           = (s\<lparr>status := ready\<rparr>,
              (if workletNode s then [PostMessage Clear] else []) @ [OnStatusChange ready],
              None)"
proof -
  have a: "workletNode s \<and> status s = ready \<longrightarrow>
            status (fst (ws_onmessage JSON_parse s (Binary data))) = processing"
    by (simp add: ws_onmessage_def handleAudioData_def setStatus_def split: sum.splits)
  have a': "\<not> workletNode s \<longrightarrow>
            ws_onmessage JSON_parse s (Binary data) = (s, [], None)"
    by (simp add: ws_onmessage_def handleAudioData_def)
  have b: "ws_onmessage JSON_parse s (Text t_done)
             = (s\<lparr>status := ready\<rparr>, [OnStatusChange ready], None)"
    using assms(1)
    by (simp add: ws_onmessage_def ws_on_json_def handle_status_message setStatus_def)
       (simp add: status_message_def)
  have c: "ws_onmessage JSON_parse s (Text t_speaking)
           = (s\<lparr>status := ready\<rparr>,
              (if workletNode s then [PostMessage Clear] else []) @ [OnStatusChange ready],
              None)"
    using assms(2)
    by (simp add: ws_onmessage_def ws_on_json_def handle_status_message)
       (simp add: status_message_def)
  from a a' b c show ?thesis by simp
qed

theorem status_machine_witness:
  "(\<lambda>t. if t = ''done'' then Some (status_message ''done'')
         else if t = ''user_speaking'' then Some (status_message ''user_speaking'')
         else None) ''done'' = Some (status_message ''done'') \<and>
   (\<lambda>t. if t = ''done'' then Some (status_message ''done'')
         else if t = ''user_speaking'' then Some (status_message ''user_speaking'')
         else None) ''user_speaking'' = Some (status_message ''user_speaking'') \<and>
   workletNode AudioManager_recording \<and> status AudioManager_recording = ready \<and>
   status (fst (ws_onmessage
     (\<lambda>t. if t = ''done'' then Some (status_message ''done'')
           else if t = ''user_speaking'' then Some (status_message ''user_speaking'')
           else None)
     AudioManager_recording (Binary \<lparr>samples = [Num 1], spare = 0\<rparr>))) = processing \<and>
   ws_onmessage
     (\<lambda>t. if t = ''done'' then Some (status_message ''done'')
           else if t = ''user_speaking'' then Some (status_message ''user_speaking'')
           else None)
     AudioManager_recording (Text ''user_speaking'')
   = (AudioManager_recording\<lparr>status := ready\<rparr>,
      (if workletNode AudioManager_recording then [PostMessage Clear] else [])
        @ [OnStatusChange ready], None) \<and>
   \<not> workletNode AudioManager_initialized \<and>
   ws_onmessage
     (\<lambda>t. if t = ''done'' then Some (status_message ''done'')
           else if t = ''user_speaking'' then Some (status_message ''user_speaking'')
           else None)
     AudioManager_initialized (Binary \<lparr>samples = [Num 1], spare = 0\<rparr>)
   = (AudioManager_initialized, [], None)"
proof -
  let ?p = "\<lambda>t. if t = ''done'' then Some (status_message ''done'')
         else if t = ''user_speaking'' then Some (status_message ''user_speaking'')
         else None"
  have h1: "?p ''done'' = Some (status_message ''done'')" by simp
  have h2: "?p ''user_speaking'' = Some (status_message ''user_speaking'')" by simp
  note t = status_machine [of ?p "''done''" "''user_speaking''", OF h1 h2,
      of AudioManager_recording "\<lparr>samples = [Num 1], spare = 0\<rparr>"]
  note u = status_machine [of ?p "''done''" "''user_speaking''", OF h1 h2,
      of AudioManager_initialized "\<lparr>samples = [Num 1], spare = 0\<rparr>"]
  from u initialized_fields(1)
  have n: "ws_onmessage ?p AudioManager_initialized (Binary \<lparr>samples = [Num 1], spare = 0\<rparr>)
             = (AudioManager_initialized, [], None)"
    by blast
  from t recording_fields(1,2) h1 h2 initialized_fields(1) n show ?thesis by blast
qed

text \<open>
  C5 as stated fails before \<^verbatim>\<open>startRecording\<close> has created the worklet node: in status
  \<^verbatim>\<open>ready\<close> a binary payload leaves the status at \<^verbatim>\<open>ready\<close>, and
  \<^verbatim>\<open>user_speaking\<close> posts no \<^verbatim>\<open>clear\<close>.
\<close>

theorem status_machine_counterexample:
  "status AudioManager_initialized = ready \<and>
   status (fst (ws_onmessage (\<lambda>t. Some (status_message ''user_speaking''))
                  AudioManager_initialized (Binary \<lparr>samples = [Num 1], spare = 0\<rparr>)))
     \<noteq> processing \<and>
   fst (snd (ws_onmessage (\<lambda>t. Some (status_message ''user_speaking''))
               AudioManager_initialized (Text ''user_speaking'')))
     = [OnStatusChange ready]"
  by (simp add: ws_onmessage_def ws_on_json_def handleAudioData_def handle_status_message
        initialized_fields)
     (simp add: status_message_def)

text \<open>
  C6. A textual payload on which \<^verbatim>\<open>JSON.parse\<close> raises is logged and dropped: the
  handler logs one error, no exception leaves it, and the manager (its status and its
  socket among its fields) is unchanged.
\<close>

theorem malformed_text_dropped:
  assumes "JSON_parse text = None"
  shows "ws_onmessage JSON_parse s (Text text)
           = (s, [ConsoleError ''Failed to parse message:''], None)"
  using assms by (simp add: ws_onmessage_def)

theorem malformed_text_dropped_witness:
  "(\<lambda>t. if t = ''null'' then Some JNull else None) ''{type:'' = None \<and>
   ws_onmessage (\<lambda>t. if t = ''null'' then Some JNull else None) AudioManager_recording
       (Text ''{type:'')
     = (AudioManager_recording, [ConsoleError ''Failed to parse message:''], None)"
proof -
  have h: "(\<lambda>t. if t = ''null'' then Some JNull else None) ''{type:'' = None" by simp
  from malformed_text_dropped [of "\<lambda>t. if t = ''null'' then Some JNull else None", OF h] h
  show ?thesis by blast
qed

text \<open>
  C9. \<^verbatim>\<open>stopRecording()\<close> sets \<^verbatim>\<open>isRecording\<close> to false and
  \<^verbatim>\<open>resumeRecording()\<close> sets it to true; neither changes another field (audio context,
  worklet node, stream, socket, status) nor has an effect. While paused, an input frame from
  the worklet still reports the audio-activity level and sends nothing; once resumed on an
  open socket the level is reported and the frame is sent. For a non-empty frame of finite
  samples \<open>xs\<close> the level is the square root of the sum of the squares of the samples at
  the indices 0, 10, 20, ... divided by \<open>length xs / 10\<close>; for an empty frame it is NaN.
\<close>

theorem pause_gates_only_sending:
  assumes "websocket s = Some OPEN" and "xs \<noteq> []"
  shows "stopRecording s = (s\<lparr>isRecording := False\<rparr>, []) \<and>
         resumeRecording s = (s\<lparr>isRecording := True\<rparr>, []) \<and>
         audioContext (fst (stopRecording s)) = audioContext s \<and>
         workletNode (fst (stopRecording s)) = workletNode s \<and>
         stream (fst (stopRecording s)) = stream s \<and>
         websocket (fst (stopRecording s)) = websocket s \<and>
         status (fst (stopRecording s)) = status s \<and>
         node_onmessage (fst (stopRecording s)) (Input inputData)
           = (fst (stopRecording s), [OnAudioActivity (rms inputData)]) \<and>
         rms inputData
           = num_sqrt (num_div (foldl (\<lambda>a x. num_add a (num_mul x x)) (Num 0) (strided inputData))
                               (num_div (Num (real (length inputData))) (Num 10))) \<and>
         rms (map Num xs)
           = Num (sqrt ((\<Sum>j\<leftarrow>[0 ..< (length xs + 9) div 10]. xs ! (10 * j) * xs ! (10 * j))
                        / (real (length xs) / 10))) \<and>
         rms [] = NaN \<and>
         node_onmessage (fst (stopRecording s)) (Input (map Num xs))
           = (fst (stopRecording s),
              [OnAudioActivity
                 (Num (sqrt ((\<Sum>j\<leftarrow>[0 ..< (length xs + 9) div 10]. xs ! (10 * j) * xs ! (10 * j))
                             / (real (length xs) / 10))))]) \<and>
         take 2 (snd (node_onmessage (fst (resumeRecording s)) (Input (map Num xs))))
           = [OnAudioActivity
                (Num (sqrt ((\<Sum>j\<leftarrow>[0 ..< (length xs + 9) div 10]. xs ! (10 * j) * xs ! (10 * j))
                            / (real (length xs) / 10)))),
              WebSocketSend (map Num xs)] \<and>
         take 2 (snd (node_onmessage (fst (resumeRecording s)) (Input inputData)))
           = [OnAudioActivity (rms inputData), WebSocketSend inputData]"
  using assms(1) rms_indices [OF assms(2)] rms_empty
  by (simp add: stopRecording_def resumeRecording_def node_onmessage_def)
     (simp add: rms_def rms_sum_strided)

theorem pause_gates_only_sending_witness:
  "websocket AudioManager_recording = Some OPEN \<and>
   [1, 2, 2, 2, 2, 2, 2, 2, 2, 2, 7, 2, 2, 2, 2, 2, 2, 2, 2, 2] \<noteq> ([] :: real list) \<and>
   node_onmessage (fst (stopRecording AudioManager_recording))
       (Input (map Num [1, 2, 2, 2, 2, 2, 2, 2, 2, 2, 7, 2, 2, 2, 2, 2, 2, 2, 2, 2]))
     = (fst (stopRecording AudioManager_recording), [OnAudioActivity (Num 5)]) \<and>
   take 2 (snd (node_onmessage (fst (resumeRecording AudioManager_recording))
       (Input (map Num [1, 2, 2, 2, 2, 2, 2, 2, 2, 2, 7, 2, 2, 2, 2, 2, 2, 2, 2, 2]))))
     = [OnAudioActivity (Num 5),
        WebSocketSend (map Num [1, 2, 2, 2, 2, 2, 2, 2, 2, 2, 7, 2, 2, 2, 2, 2, 2, 2, 2, 2])]"
proof -
  let ?xs = "[1, 2, 2, 2, 2, 2, 2, 2, 2, 2, 7, 2, 2, 2, 2, 2, 2, 2, 2, 2] :: real list"
  let ?level = "sqrt ((\<Sum>j\<leftarrow>[0 ..< (length ?xs + 9) div 10]. ?xs ! (10 * j) * ?xs ! (10 * j))
                      / (real (length ?xs) / 10))"
  have h1: "websocket AudioManager_recording = Some OPEN" by (rule recording_fields(3))
  have h2: "?xs \<noteq> []" by simp
  have sq: "sqrt (25::real) = 5"
    using real_sqrt_abs [of "5::real"] by simp
  have "(\<Sum>j\<leftarrow>[0 ..< (length ?xs + 9) div 10]. ?xs ! (10 * j) * ?xs ! (10 * j)) = 50"
    by (simp add: upt_rec)
  then have lv: "?level = 5"
    by (simp add: sq)
  note t = pause_gates_only_sending [OF h1 h2]
  from t have "node_onmessage (fst (stopRecording AudioManager_recording)) (Input (map Num ?xs))
           = (fst (stopRecording AudioManager_recording), [OnAudioActivity (Num ?level)])"
    by blast
  then have a: "node_onmessage (fst (stopRecording AudioManager_recording)) (Input (map Num ?xs))
           = (fst (stopRecording AudioManager_recording), [OnAudioActivity (Num 5)])"
    by (simp only: lv)
  from t have "take 2 (snd (node_onmessage (fst (resumeRecording AudioManager_recording))
                   (Input (map Num ?xs))))
           = [OnAudioActivity (Num ?level), WebSocketSend (map Num ?xs)]"
    by blast
  then have b: "take 2 (snd (node_onmessage (fst (resumeRecording AudioManager_recording))
                   (Input (map Num ?xs))))
           = [OnAudioActivity (Num 5), WebSocketSend (map Num ?xs)]"
    by (simp only: lv)
  from h1 h2 a b show ?thesis by blast
qed

text \<open>
  C10. A binary payload that arrives while the worklet node does not exist (as in a new
  manager, in an initialized one in status \<^verbatim>\<open>ready\<close> before \<^verbatim>\<open>startRecording\<close>, and
  after \<^verbatim>\<open>stop()\<close>) is discarded: nothing is posted for playback, no callback runs
  and the manager, its status included, is unchanged.
\<close>

theorem audio_without_node_discarded:
  assumes "\<not> workletNode s"
  shows "handleAudioData s data = (s, [], None) \<and>
         ws_onmessage JSON_parse s (Binary data) = (s, [], None) \<and>
         ws_onmessage JSON_parse AudioManager_new (Binary data) = (AudioManager_new, [], None) \<and>
         ws_onmessage JSON_parse AudioManager_initialized (Binary data)
           = (AudioManager_initialized, [], None) \<and>
         status AudioManager_initialized = ready \<and>
         ws_onmessage JSON_parse (fst (stop s')) (Binary data) = (fst (stop s'), [], None)"
  using assms
  by (simp add: ws_onmessage_def handleAudioData_def stop_def AudioManager_new_def
        initialized_fields)

theorem audio_without_node_discarded_witness:
  "\<not> workletNode AudioManager_initialized \<and> status AudioManager_initialized = ready \<and>
   ws_onmessage (\<lambda>t. None) AudioManager_initialized (Binary \<lparr>samples = [Num 1], spare = 0\<rparr>)
     = (AudioManager_initialized, [], None)"
  using audio_without_node_discarded [OF initialized_fields(1),
      of "\<lparr>samples = [Num 1], spare = 0\<rparr>" "\<lambda>t. None"] initialized_fields(1,2)
  by blast


section \<open>The alpha compositor: helper lemmas\<close>

lemma ratio_iff: "0 < h \<Longrightarrow> (real w / real h > 1.8) \<longleftrightarrow> 9 * h < 5 * w"
proof -
  assume h: "0 < h"
  have "(real w / real h > 1.8) \<longleftrightarrow> 1.8 * real h < real w"
    using h by (simp add: pos_less_divide_eq)
  also have "\<dots> \<longleftrightarrow> 9 * real h < 5 * real w"
    by auto
  also have "\<dots> \<longleftrightarrow> real (9 * h) < real (5 * w)"
    by simp
  also have "\<dots> \<longleftrightarrow> 9 * h < 5 * w"
    by (simp only: of_nat_less_iff)
  finally show ?thesis .
qed

lemma checkSideBySide_detect:
  assumes "0 < vw" and "0 < vh"
      and "\<not> (formatDetected r \<and> lastVideoWidth r = vw \<and> lastVideoHeight r = vh)"
  shows "checkSideBySide r vw vh =
           (if real vw / real vh > 1.8
            then (r\<lparr> lastVideoWidth := vw, lastVideoHeight := vh, isSideBySide := True,
                     canvas_width := vw div 2, canvas_height := vh, formatDetected := True \<rparr>,
                  [SetupProgram programSBS, GlLog ''[WebGL] Side-by-Side''])
            else (r\<lparr> lastVideoWidth := vw, lastVideoHeight := vh, isSideBySide := False,
                     canvas_width := vw, canvas_height := vh, formatDetected := True \<rparr>,
                  [SetupProgram programNormal, GlLog ''[WebGL] normal'']))"
  using assms unfolding checkSideBySide_def Let_def by auto

lemma checkSideBySide_cached:
  "formatDetected r \<Longrightarrow> lastVideoWidth r = vw \<Longrightarrow> lastVideoHeight r = vh \<Longrightarrow>
   checkSideBySide r vw vh = (r, [])"
  unfolding checkSideBySide_def Let_def by simp

lemma checkSideBySide_layout_ok: "layout_ok r \<Longrightarrow> layout_ok (fst (checkSideBySide r w h))"
proof (cases "0 < w \<and> 0 < h \<and> \<not> (formatDetected r \<and> lastVideoWidth r = w \<and> lastVideoHeight r = h)")
  case True
  then show ?thesis
    by (simp add: checkSideBySide_detect layout_ok_def)
next
  case False
  moreover assume "layout_ok r"
  ultimately show ?thesis
    by (auto simp: checkSideBySide_def Let_def)
qed

lemma detect_run_layout_ok: "layout_ok r \<Longrightarrow> layout_ok (detect_run r frames)"
  unfolding detect_run_def
  by (induction frames arbitrary: r) (auto simp: checkSideBySide_layout_ok)

lemma layout_ok_new: "layout_ok (WebGLVideoRenderer_new cw ch)"
  by (simp add: layout_ok_def WebGLVideoRenderer_new_def)


section \<open>The alpha compositor: claims\<close>

text \<open>
  C7. When detection runs on a video with decoded dimensions, the video is side-by-side
  exactly when width / height exceeds 1.8, that is when 5 * width > 9 * height; the canvas
  becomes half the width (truncated) by the height for side-by-side and the video's
  dimensions otherwise; a second call with the same dimensions changes nothing and has no
  effect. 480 by 270 and 640 by 480 are classified plain. After any sequence of frames the
  detected flag, the cached dimensions and the canvas agree with the threshold test.
\<close>

theorem layout_detection:
  assumes "0 < vw" and "0 < vh"
      and "\<not> (formatDetected r \<and> lastVideoWidth r = vw \<and> lastVideoHeight r = vh)"
  shows "isSideBySide (fst (checkSideBySide r vw vh)) = (real vw / real vh > 1.8) \<and>
         (real vw / real vh > 1.8) = (9 * vh < 5 * vw) \<and>
         canvas_width (fst (checkSideBySide r vw vh))
           = (if real vw / real vh > 1.8 then vw div 2 else vw) \<and>
         canvas_height (fst (checkSideBySide r vw vh)) = vh \<and>
         snd (checkSideBySide r vw vh) \<noteq> [] \<and>
         checkSideBySide (fst (checkSideBySide r vw vh)) vw vh
           = (fst (checkSideBySide r vw vh), []) \<and>
         \<not> isSideBySide (fst (checkSideBySide (WebGLVideoRenderer_new cw ch) 480 270)) \<and>
         \<not> isSideBySide (fst (checkSideBySide (WebGLVideoRenderer_new cw ch) 640 480)) \<and>
         layout_ok (detect_run (WebGLVideoRenderer_new cw ch) frames)"
proof -
  note d = checkSideBySide_detect [OF assms]
  have inv: "layout_ok (detect_run (WebGLVideoRenderer_new cw ch) frames)"
    by (rule detect_run_layout_ok) (rule layout_ok_new)
  have c1: "isSideBySide (fst (checkSideBySide r vw vh)) = (real vw / real vh > 1.8)"
    by (simp add: d)
  have c2: "(real vw / real vh > 1.8) = (9 * vh < 5 * vw)"
    using assms(2) by (rule ratio_iff)
  have c3: "canvas_width (fst (checkSideBySide r vw vh))
              = (if real vw / real vh > 1.8 then vw div 2 else vw)"
    by (simp add: d)
  have c4: "canvas_height (fst (checkSideBySide r vw vh)) = vh"
    by (simp add: d)
  have c5: "snd (checkSideBySide r vw vh) \<noteq> []"
    by (simp add: d)
  have c6: "checkSideBySide (fst (checkSideBySide r vw vh)) vw vh
              = (fst (checkSideBySide r vw vh), [])"
    by (rule checkSideBySide_cached) (simp_all add: d)
  have n: "\<not> formatDetected (WebGLVideoRenderer_new cw ch)"
    by (simp add: WebGLVideoRenderer_new_def)
  have e1: "\<not> isSideBySide (fst (checkSideBySide (WebGLVideoRenderer_new cw ch) 480 270))"
    using n by (subst checkSideBySide_detect) simp_all
  have e2: "\<not> isSideBySide (fst (checkSideBySide (WebGLVideoRenderer_new cw ch) 640 480))"
    using n by (subst checkSideBySide_detect) simp_all
  from c1 c2 c3 c4 c5 c6 e1 e2 inv show ?thesis by blast
qed

theorem layout_detection_witness:
  "(0::nat) < 1920 \<and> (0::nat) < 540 \<and>
   \<not> (formatDetected (WebGLVideoRenderer_new 300 150) \<and>
      lastVideoWidth (WebGLVideoRenderer_new 300 150) = 1920 \<and>
      lastVideoHeight (WebGLVideoRenderer_new 300 150) = 540) \<and>
   isSideBySide (fst (checkSideBySide (WebGLVideoRenderer_new 300 150) 1920 540)) \<and>
   canvas_width (fst (checkSideBySide (WebGLVideoRenderer_new 300 150) 1920 540)) = 960 \<and>
   canvas_height (fst (checkSideBySide (WebGLVideoRenderer_new 300 150) 1920 540)) = 540 \<and>
   checkSideBySide (fst (checkSideBySide (WebGLVideoRenderer_new 300 150) 1920 540)) 1920 540
     = (fst (checkSideBySide (WebGLVideoRenderer_new 300 150) 1920 540), [])"
proof -
  have h1: "(0::nat) < 1920" and h2: "(0::nat) < 540" by simp_all
  have h3: "\<not> (formatDetected (WebGLVideoRenderer_new 300 150) \<and>
      lastVideoWidth (WebGLVideoRenderer_new 300 150) = 1920 \<and>
      lastVideoHeight (WebGLVideoRenderer_new 300 150) = 540)"
    by (simp add: WebGLVideoRenderer_new_def)
  have q: "(real 1920 / real 540 > 1.8) = True" by simp
  have d: "(1920::nat) div 2 = 960" by simp
  note t = layout_detection [OF h1 h2 h3]
  from t have a: "isSideBySide (fst (checkSideBySide (WebGLVideoRenderer_new 300 150) 1920 540))"
    by (simp only: q)
  from t have "canvas_width (fst (checkSideBySide (WebGLVideoRenderer_new 300 150) 1920 540))
           = (if real 1920 / real 540 > 1.8 then 1920 div 2 else 1920)" by blast
  then have b: "canvas_width (fst (checkSideBySide (WebGLVideoRenderer_new 300 150) 1920 540)) = 960"
    by (simp only: q d if_True)
  from t h1 h2 h3 a b show ?thesis by blast
qed


section \<open>The video ingress session: claims\<close>

text \<open>
  C8. When the server's response has a non-success status or carries \<^verbatim>\<open>code\<close> = -1,
  \<^verbatim>\<open>connect()\<close> rejects and the session id is what it was, 0 on a new or a closed
  session; in fact every rejection leaves the session id as it was. When every step
  succeeds and the response carries \<^verbatim>\<open>sessionid\<close> n, \<^verbatim>\<open>connect()\<close> resolves to
  n and \<^verbatim>\<open>getSessionId()\<close> returns n.
\<close>

theorem negotiation_outcome:
  assumes "fetched env = Some response"
  shows "(\<not> response_ok response \<or> (\<exists>data. body response = Some data \<and> code data = Some (- 1))
           \<longrightarrow> isl (snd (snd (connect s env))) \<and>
               getSessionId (fst (connect s env)) = getSessionId s \<and>
               getSessionId (fst (connect LiveTalkingWebRTC_new env)) = 0 \<and>
               getSessionId (fst (connect (close s) env)) = 0) \<and>
         (constructed env \<and> offered env \<and> remote_accepted env \<and> response_ok response \<and>
          body response = Some answer \<and> code answer \<noteq> Some (- 1)
           \<longrightarrow> snd (snd (connect s env)) = Inr (sessionid answer) \<and>
               getSessionId (fst (connect s env)) = sessionid answer) \<and>
         (isl (snd (snd (connect s env)))
           \<longrightarrow> getSessionId (fst (connect s env)) = getSessionId s)"
  using assms
  by (auto simp: connect_def connect_failed_def Let_def getSessionId_def LiveTalkingWebRTC_new_def
           close_def split: option.splits)

theorem negotiation_outcome_witness:
  "fetched \<lparr>constructed = True, offered = True,
            fetched = Some \<lparr>http_status = 200,
                             body = Some \<lparr>code = Some (- 1), msg = None, sessionid = 7\<rparr>\<rparr>,
            remote_accepted = True\<rparr>
     = Some \<lparr>http_status = 200, body = Some \<lparr>code = Some (- 1), msg = None, sessionid = 7\<rparr>\<rparr> \<and>
   isl (snd (snd (connect LiveTalkingWebRTC_new
     \<lparr>constructed = True, offered = True,
      fetched = Some \<lparr>http_status = 200,
                       body = Some \<lparr>code = Some (- 1), msg = None, sessionid = 7\<rparr>\<rparr>,
      remote_accepted = True\<rparr>))) \<and>
   getSessionId (fst (connect LiveTalkingWebRTC_new
     \<lparr>constructed = True, offered = True,
      fetched = Some \<lparr>http_status = 200,
                       body = Some \<lparr>code = Some (- 1), msg = None, sessionid = 7\<rparr>\<rparr>,
      remote_accepted = True\<rparr>)) = 0 \<and>
   getSessionId (fst (connect LiveTalkingWebRTC_new
     \<lparr>constructed = True, offered = True,
      fetched = Some \<lparr>http_status = 200,
                       body = Some \<lparr>code = None, msg = None, sessionid = 42\<rparr>\<rparr>,
      remote_accepted = True\<rparr>)) = 42"
proof -
  let ?bad = "\<lparr>code = Some (- 1), msg = None, sessionid = 7\<rparr>"
  let ?good = "\<lparr>code = None, msg = None, sessionid = 42\<rparr>"
  let ?env = "\<lambda>a. \<lparr>constructed = True, offered = True,
                    fetched = Some \<lparr>http_status = 200, body = Some a\<rparr>,
                    remote_accepted = True\<rparr>"
  have f: "fetched (?env a) = Some \<lparr>http_status = 200, body = Some a\<rparr>" for a
    by simp
  have ok: "response_ok \<lparr>http_status = 200, body = Some a\<rparr>" for a :: offer_answer
    by (simp add: response_ok_def)
  have b: "\<exists>data. body \<lparr>http_status = 200, body = Some ?bad\<rparr> = Some data \<and> code data = Some (- 1)"
    by simp
  from negotiation_outcome [OF f [of ?bad], where s = LiveTalkingWebRTC_new] b
  have bad: "isl (snd (snd (connect LiveTalkingWebRTC_new (?env ?bad))))"
            "getSessionId (fst (connect LiveTalkingWebRTC_new (?env ?bad))) = 0"
    by blast+
  have g: "constructed (?env ?good) \<and> offered (?env ?good) \<and> remote_accepted (?env ?good) \<and>
           body \<lparr>http_status = 200, body = Some ?good\<rparr> = Some ?good \<and>
           code ?good \<noteq> Some (- 1)"
    by simp
  from negotiation_outcome [OF f [of ?good], where s = LiveTalkingWebRTC_new and answer = ?good]
    g ok [of ?good]
  have good: "getSessionId (fst (connect LiveTalkingWebRTC_new (?env ?good))) = sessionid ?good"
    by blast
  have "sessionid ?good = 42" by simp
  with f [of ?bad] bad good show ?thesis by simp
qed

end
